theory Spec2Isabelle
  imports Main "HOL-Library.Char_ord" "HOL-Library.List_Lexorder" "HOL-Library.Multiset"
begin

section \<open>Local prompt-cache simulation (package claude, pcache)\<close>

text \<open>
  A shallow embedding of the latest revision of the prompt-cache simulation: the breakpoint
  extractor, the prefix hasher, the fingerprint store client, \<open>CheckCacheHits\<close> and
  \<open>applyLocalCacheSimulation\<close>.

  Go's \<open>int\<close> is modelled as \<open>int\<close>: the token counts and list positions
  the code computes are far from the 64-bit bounds.  The one number that comes from
  outside, the total that \<open>CheckCacheHits\<close> is given, can be any 64-bit value, so the
  subtraction it enters is written with its wrap-around.  A \<open>time.Duration\<close> and a
  \<open>time.Time\<close> are integers counting nanoseconds.
\<close>

subsection \<open>Constants\<close>

definition PCacheKeyPrefix :: string where
  "PCacheKeyPrefix = ''pcache''"

definition PCacheFuzzyPrefix :: string where
  "PCacheFuzzyPrefix = ''pcache_fuzzy''"

text \<open>The units of package \<open>time\<close>, in nanoseconds.\<close>

definition Second :: int where
  "Second = 1000000000"

definition Minute :: int where
  "Minute = 60 * Second"

definition Hour :: int where
  "Hour = 60 * Minute"

definition TTL5m :: int where
  "TTL5m = 5 * Minute"

definition TTL1h :: int where
  "TTL1h = 1 * Hour"

definition MaxBreakpoints :: nat where
  "MaxBreakpoints = 4"

definition MinCacheableTokensDefault :: int where
  "MinCacheableTokensDefault = 5"

definition MinCacheableTokensOpus :: int where
  "MinCacheableTokensOpus = 5"

definition MinCacheableTokensSonnet :: int where
  "MinCacheableTokensSonnet = 5"

definition MinCacheableTokensHaiku :: int where
  "MinCacheableTokensHaiku = 5"

subsection \<open>Data structures\<close>

text \<open>
  A parsed JSON document.  An object keeps its members in document order, duplicates
  included; a number keeps its literal.
\<close>

datatype json =
    JNull
  | JBool bool
  | JNumber string
  | JString string
  | JArray "json list"
  | JObject "(string \<times> json) list"

text \<open>
  A \<open>json.RawMessage\<close> is a byte string.  The code looks at two things only: whether
  its length is zero, and what \<open>json.Unmarshal\<close> makes of it.  So the bytes are
  represented by their class: no bytes at all, bytes that are not a JSON document, or the
  document they spell.
\<close>

datatype RawMessage = RawEmpty | RawInvalid | RawJSON json

fun rawLen0 :: "RawMessage \<Rightarrow> bool" where
  "rawLen0 RawEmpty = True"
| "rawLen0 RawInvalid = False"
| "rawLen0 (RawJSON j) = False"

datatype error = RedisError | JSONError

record CacheBreakpoint =
  Location :: string
  Index :: int
  BlockIndex :: int
  TTL :: string
  TokenCount :: int

text \<open>
  The fields of \<open>CachePrefix\<close> and \<open>CacheEntry\<close> carry a prefix here, since a record
  field is a constant of the theory and \<open>Tools\<close>, \<open>System\<close>, \<open>Messages\<close>,
  \<open>TTL\<close> and \<open>TokenCount\<close> are taken.
\<close>

record CachePrefix =
  PrefixTools :: "string list"
  PrefixSystem :: "string list"
  PrefixMessages :: "string list"

record CacheEntry =
  Hash :: string
  EntryTokenCount :: int
  EntryTTL :: string
  CreatedAt :: int
  ExpiresAt :: int
  Model :: string

record CacheResult =
  Hit :: bool
  CacheReadTokens :: int
  CacheCreationTokens :: int
  CacheCreation5m :: int
  CacheCreation1h :: int
  InputTokens :: int
  BreakpointHits :: "bool list"

text \<open>
  The request of package \<open>dto\<close>, as far as the simulation reads it.  A tool, a content
  block and a message are represented by the bytes \<open>json.Marshal\<close> returns for them;
  a content block also has its \<open>cache_control\<close> annotation.  \<open>None\<close> is Go's
  \<open>nil\<close>.
\<close>

record ClaudeMediaMessage =
  MediaBytes :: string
  CacheControl :: RawMessage

datatype MessageContent =
    StringContent string
  | BlockContent "ClaudeMediaMessage list"

record ClaudeMessage =
  MessageBytes :: string
  Content :: MessageContent

datatype SystemPrompt =
    StringSystem string
  | BlockSystem "ClaudeMediaMessage list"

record ClaudeRequest =
  Tools :: "string list option"
  System :: "SystemPrompt option"
  Messages :: "ClaudeMessage list"

text \<open>The fields of \<open>dto.Usage\<close> that the simulation writes.\<close>

record InputTokenDetails =
  CachedTokens :: int
  CachedCreationTokens :: int

record Usage =
  PromptTokens :: int
  CompletionTokens :: int
  TotalTokens :: int
  PromptTokensDetails :: InputTokenDetails
  ClaudeCacheCreation5mTokens :: int
  ClaudeCacheCreation1hTokens :: int

text \<open>
  What the package takes from outside.

  \<^item> The Redis client of package \<open>common\<close>: the switch \<open>RedisEnabled\<close> and the read
    \<open>RedisGet\<close>, which returns the value under a key or an error.
  \<^item> The tokenizer \<open>service.CountTextToken\<close>.
  \<^item> The standard library: SHA-256 followed by hex encoding; \<open>json.Marshal\<close> of a
    string, of a byte slice, of an integer and of a \<open>CacheEntry\<close> (the only one with an
    error return that the code looks at); \<open>json.Unmarshal\<close> of a stored exact entry; and
    for a stored fuzzy entry \<open>json.Unmarshal\<close> into a map followed by the assertion
    \<open>entry["tokens"].(float64)\<close> and the conversion to \<open>int\<close>: \<open>Inl\<close> when
    \<open>Unmarshal\<close> fails, \<open>Inr None\<close> when there is no number under \<open>tokens\<close>.
  \<^item> \<open>extractTextContent\<close>, the reduction of a block to its text, is a parameter as
    well: it works on the decoded JSON of the block, its result depends on the iteration
    order of a Go map, and no property below depends on which text a block is reduced to.
\<close>

record env =
  RedisEnabled :: bool
  RedisGet :: "string \<Rightarrow> error + string"
  unmarshalCacheEntry :: "string \<Rightarrow> error + CacheEntry"
  unmarshalTokens :: "string \<Rightarrow> error + int option"
  CountTextToken :: "string \<Rightarrow> string \<Rightarrow> int"
  extractTextContent :: "string \<Rightarrow> string"
  sha256Hex :: "string \<Rightarrow> string"
  marshalString :: "string \<Rightarrow> string"
  marshalBytes :: "string \<Rightarrow> string"
  marshalInt :: "int \<Rightarrow> string"
  marshalCacheEntry :: "CacheEntry \<Rightarrow> error + string"

subsection \<open>Cache-control annotations\<close>

text \<open>
  \<open>json.Unmarshal\<close> into \<open>struct { Type string `json:"type"`; TTL string `json:"ttl"` }\<close>.
  A member's key selects a field when it equals the field's name up to the case of
  its letters; a string sets the field, \<open>null\<close> leaves it, any other value is a type
  error; members are read in order, so the last one wins.  \<open>null\<close> for the whole
  document leaves the struct at its zero value; any other document that is not an object
  is a type error.  The result is \<open>None\<close> when \<open>Unmarshal\<close> returns an error.
\<close>

definition asciiLower :: "char \<Rightarrow> char" where
  "asciiLower c =
     (let n = (of_char c :: nat) in if 65 \<le> n \<and> n \<le> 90 then char_of (n + 32) else c)"

definition keyMatches :: "string \<Rightarrow> string \<Rightarrow> bool" where
  "keyMatches name key \<longleftrightarrow> map asciiLower key = map asciiLower name"

fun decodeMembers ::
  "(string \<times> json) list \<Rightarrow> string \<times> string \<Rightarrow> (string \<times> string) option" where
  "decodeMembers [] cc = Some cc"
| "decodeMembers ((k, v) # ms) (ty, ttl) =
     (if keyMatches ''type'' k then
        (case v of
           JString s \<Rightarrow> decodeMembers ms (s, ttl)
         | JNull \<Rightarrow> decodeMembers ms (ty, ttl)
         | _ \<Rightarrow> None)
      else if keyMatches ''ttl'' k then
        (case v of
           JString s \<Rightarrow> decodeMembers ms (ty, s)
         | JNull \<Rightarrow> decodeMembers ms (ty, ttl)
         | _ \<Rightarrow> None)
      else decodeMembers ms (ty, ttl))"

fun unmarshalCacheControl :: "RawMessage \<Rightarrow> (string \<times> string) option" where
  "unmarshalCacheControl RawEmpty = None"
| "unmarshalCacheControl RawInvalid = None"
| "unmarshalCacheControl (RawJSON JNull) = Some ('''', '''')"
| "unmarshalCacheControl (RawJSON (JObject ms)) = decodeMembers ms ('''', '''')"
| "unmarshalCacheControl (RawJSON j) = None"

definition extractCacheControlTTLFromRaw :: "RawMessage \<Rightarrow> string" where
  "extractCacheControlTTLFromRaw cacheControl =
     (if rawLen0 cacheControl then ''''
      else case unmarshalCacheControl cacheControl of
        None \<Rightarrow> ''''
      | Some (ty, ttl) \<Rightarrow>
          if ty \<noteq> ''ephemeral'' then ''''
          else if ttl = '''' then ''5m''
          else ttl)"

text \<open>The loop of \<open>extractCacheControlFromMessage\<close> returns at the first block with an annotation.\<close>

fun firstCacheControl :: "ClaudeMediaMessage list \<Rightarrow> string" where
  "firstCacheControl [] = ''''"
| "firstCacheControl (media # content) =
     (if \<not> rawLen0 (CacheControl media) then extractCacheControlTTLFromRaw (CacheControl media)
      else firstCacheControl content)"

definition extractCacheControlFromMessage :: "ClaudeMessage \<Rightarrow> string" where
  "extractCacheControlFromMessage msg =
     (case Content msg of
        StringContent s \<Rightarrow> ''''
      | BlockContent content \<Rightarrow> firstCacheControl content)"

subsection \<open>Breakpoint extraction\<close>

definition estimateTokens :: "env \<Rightarrow> string \<Rightarrow> string \<Rightarrow> int" where
  "estimateTokens env text model = CountTextToken env text model"

definition estimateContentTokens :: "env \<Rightarrow> string \<Rightarrow> string \<Rightarrow> int" where
  "estimateContentTokens env data model =
     (let text = extractTextContent env data
      in if text = '''' then 0 else CountTextToken env text model)"

text \<open>The local variables of \<open>ExtractCacheBreakpointsWithTotal\<close>.\<close>

record extraction =
  breakpoints :: "CacheBreakpoint list"
  globalBlockIndex :: int
  totalTokens :: int
  toolsTokens :: int
  cacheableTokens :: int

fun toolsLoop :: "env \<Rightarrow> string \<Rightarrow> string list \<Rightarrow> extraction \<Rightarrow> extraction" where
  "toolsLoop env model [] st = st"
| "toolsLoop env model (toolBytes # tools) st =
     (let tokens = estimateContentTokens env toolBytes model
      in toolsLoop env model tools
           (st\<lparr>toolsTokens := toolsTokens st + tokens,
               totalTokens := totalTokens st + tokens,
               globalBlockIndex := globalBlockIndex st + 1\<rparr>))"

definition addBlock :: "int \<Rightarrow> extraction \<Rightarrow> extraction" where
  "addBlock tokens st =
     st\<lparr>cacheableTokens := cacheableTokens st + tokens,
        totalTokens := totalTokens st + tokens,
        globalBlockIndex := globalBlockIndex st + 1\<rparr>"

definition appendBreakpoint :: "string \<Rightarrow> int \<Rightarrow> string \<Rightarrow> extraction \<Rightarrow> extraction" where
  "appendBreakpoint loc i ttl st =
     st\<lparr>breakpoints := breakpoints st @
          [\<lparr>Location = loc, Index = i, BlockIndex = globalBlockIndex st,
            TTL = ttl, TokenCount = cacheableTokens st\<rparr>]\<rparr>"

definition systemStep :: "env \<Rightarrow> string \<Rightarrow> int \<Rightarrow> ClaudeMediaMessage \<Rightarrow> extraction \<Rightarrow> extraction" where
  "systemStep env model i media st =
     (let tokens = estimateContentTokens env (MediaBytes media) model;
          st1 = addBlock tokens st
      in if \<not> rawLen0 (CacheControl media) then
           (let ttl = extractCacheControlTTLFromRaw (CacheControl media)
            in if ttl \<noteq> '''' then appendBreakpoint ''system'' i ttl st1 else st1)
         else st1)"

fun systemLoop :: "env \<Rightarrow> string \<Rightarrow> int \<Rightarrow> ClaudeMediaMessage list \<Rightarrow> extraction \<Rightarrow> extraction" where
  "systemLoop env model i [] st = st"
| "systemLoop env model i (media # systemMedia) st =
     systemLoop env model (i + 1) systemMedia (systemStep env model i media st)"

definition messageStep :: "env \<Rightarrow> string \<Rightarrow> int \<Rightarrow> ClaudeMessage \<Rightarrow> extraction \<Rightarrow> extraction" where
  "messageStep env model i msg st =
     (let tokens = estimateContentTokens env (MessageBytes msg) model;
          st1 = addBlock tokens st;
          ttl = extractCacheControlFromMessage msg
      in if ttl \<noteq> '''' then appendBreakpoint ''message'' i ttl st1 else st1)"

fun messagesLoop :: "env \<Rightarrow> string \<Rightarrow> int \<Rightarrow> ClaudeMessage list \<Rightarrow> extraction \<Rightarrow> extraction" where
  "messagesLoop env model i [] st = st"
| "messagesLoop env model i (msg # msgs) st =
     messagesLoop env model (i + 1) msgs (messageStep env model i msg st)"

text \<open>The three passes, before the list is cut to \<open>MaxBreakpoints\<close>.\<close>

definition extractAll :: "env \<Rightarrow> ClaudeRequest \<Rightarrow> string \<Rightarrow> extraction" where
  "extractAll env req model =
     (let st0 = \<lparr>breakpoints = [], globalBlockIndex = 0, totalTokens = 0,
                 toolsTokens = 0, cacheableTokens = 0\<rparr>;
          st1 = (case Tools req of
                   None \<Rightarrow> st0
                 | Some tools \<Rightarrow> toolsLoop env model tools st0);
          st2 = (case System req of
                   Some (BlockSystem systemMedia) \<Rightarrow> systemLoop env model 0 systemMedia st1
                 | Some (StringSystem s) \<Rightarrow> addBlock (estimateTokens env s model) st1
                 | None \<Rightarrow> st1)
      in messagesLoop env model 0 (Messages req) st2)"

definition ExtractCacheBreakpointsWithTotal ::
  "env \<Rightarrow> ClaudeRequest \<Rightarrow> string \<Rightarrow> CacheBreakpoint list \<times> int \<times> int" where
  "ExtractCacheBreakpointsWithTotal env req model =
     (let st = extractAll env req model;
          bps = (if length (breakpoints st) > MaxBreakpoints
                 then take MaxBreakpoints (breakpoints st) else breakpoints st)
      in (bps, totalTokens st, toolsTokens st))"

definition ExtractCacheBreakpoints :: "env \<Rightarrow> ClaudeRequest \<Rightarrow> string \<Rightarrow> CacheBreakpoint list" where
  "ExtractCacheBreakpoints env req model = fst (ExtractCacheBreakpointsWithTotal env req model)"

subsection \<open>Prefix building and hashing\<close>

definition BuildPrefixUpToBreakpoint :: "env \<Rightarrow> ClaudeRequest \<Rightarrow> CacheBreakpoint \<Rightarrow> CachePrefix" where
  "BuildPrefixUpToBreakpoint env req bp =
     \<lparr>PrefixTools =
        (case Tools req of
           None \<Rightarrow> []
         | Some tools \<Rightarrow>
             (let limit = (if Location bp = ''tools'' then Index bp + 1 else int (length tools))
              in take (nat limit) tools)),
      PrefixSystem =
        (if Location bp \<noteq> ''tools'' then
           (case System req of
              None \<Rightarrow> []
            | Some (StringSystem s) \<Rightarrow> [marshalString env s]
            | Some (BlockSystem systemMedia) \<Rightarrow>
                (let limit = (if Location bp = ''system'' then Index bp + 1
                              else int (length systemMedia))
                 in take (nat limit) (map MediaBytes systemMedia)))
         else []),
      PrefixMessages =
        (if Location bp = ''message''
         then take (nat (Index bp + 1)) (map MessageBytes (Messages req))
         else [])\<rparr>"

text \<open>
  The values stored in the \<open>map[string]interface{}\<close> that is hashed or written: a
  string, a byte slice, an integer, a slice of raw messages.  A raw message is written
  as it is: the ones in a prefix come out of \<open>json.Marshal\<close>.
\<close>

datatype mapValue = VString string | VBytes string | VInt int | VRawList "string list"

fun joinComma :: "string list \<Rightarrow> string" where
  "joinComma [] = ''''"
| "joinComma [x] = x"
| "joinComma (x # y # xs) = x @ '','' @ joinComma (y # xs)"

fun marshalValue :: "env \<Rightarrow> mapValue \<Rightarrow> string" where
  "marshalValue env (VString s) = marshalString env s"
| "marshalValue env (VBytes b) = marshalBytes env b"
| "marshalValue env (VInt n) = marshalInt env n"
| "marshalValue env (VRawList xs) = ''['' @ joinComma xs @ '']''"

text \<open>
  \<open>json.Marshal\<close> of a map: whatever order the map hands its entries out in, the
  encoder sorts them by key (byte-wise) before it writes them.  The argument is the
  list of entries in the order the map enumerates them.
\<close>

definition marshalMap :: "env \<Rightarrow> (string \<times> mapValue) list \<Rightarrow> string" where
  "marshalMap env entries =
     ''{'' @ joinComma (map (\<lambda>(k, v). marshalString env k @ '':'' @ marshalValue env v)
                          (sort_key fst entries)) @ ''}''"

text \<open>The entries of \<open>data\<close> in \<open>CalculatePrefixHash\<close>, in the order they are put.\<close>

definition prefixData :: "CachePrefix \<Rightarrow> string \<Rightarrow> (string \<times> mapValue) list" where
  "prefixData prefix model =
     [(''model'', VString model)]
     @ (if length (PrefixTools prefix) > 0 then [(''tools'', VRawList (PrefixTools prefix))] else [])
     @ (if length (PrefixSystem prefix) > 0 then [(''system'', VRawList (PrefixSystem prefix))] else [])
     @ (if length (PrefixMessages prefix) > 0 then [(''messages'', VRawList (PrefixMessages prefix))] else [])"

definition hashEntries :: "env \<Rightarrow> (string \<times> mapValue) list \<Rightarrow> string" where
  "hashEntries env entries = sha256Hex env (marshalMap env entries)"

definition CalculatePrefixHash :: "env \<Rightarrow> CachePrefix \<Rightarrow> string \<Rightarrow> string" where
  "CalculatePrefixHash env prefix model = hashEntries env (prefixData prefix model)"

definition CalculateSystemHash :: "env \<Rightarrow> ClaudeRequest \<Rightarrow> string \<Rightarrow> string" where
  "CalculateSystemHash env req model =
     (case System req of
        None \<Rightarrow> ''''
      | Some sys \<Rightarrow>
          (let systemBytes =
                 (case sys of
                    StringSystem s \<Rightarrow> marshalString env s
                  | BlockSystem systemMedia \<Rightarrow> ''['' @ joinComma (map MediaBytes systemMedia) @ '']'')
           in hashEntries env [(''model'', VString model), (''system'', VBytes systemBytes)]))"

subsection \<open>Model thresholds\<close>

fun Contains :: "string \<Rightarrow> string \<Rightarrow> bool" where
  "Contains [] substr = (substr = [])"
| "Contains (c # s) substr = (take (length substr) (c # s) = substr \<or> Contains s substr)"

text \<open>
  \<open>strings.ToLower\<close> on the ASCII letters.  The four thresholds are one number in this
  revision, so the result of \<open>GetMinCacheableTokens\<close> does not depend on the model name.
\<close>

definition ToLower :: "string \<Rightarrow> string" where
  "ToLower s = map asciiLower s"

definition GetMinCacheableTokens :: "string \<Rightarrow> int" where
  "GetMinCacheableTokens model =
     (let modelLower = ToLower model
      in if Contains modelLower ''opus'' then MinCacheableTokensOpus
         else if Contains modelLower ''sonnet'' then MinCacheableTokensSonnet
         else if Contains modelLower ''haiku'' then MinCacheableTokensHaiku
         else MinCacheableTokensDefault)"

subsection \<open>Fingerprint store\<close>

definition GetCacheKey :: "string \<Rightarrow> string \<Rightarrow> string" where
  "GetCacheKey model hash = PCacheKeyPrefix @ '':'' @ model @ '':'' @ hash"

definition GetFuzzyCacheKey :: "string \<Rightarrow> string \<Rightarrow> string" where
  "GetFuzzyCacheKey model systemHash = PCacheFuzzyPrefix @ '':'' @ model @ '':'' @ systemHash"

text \<open>A call of \<open>common.RedisSet\<close>: key, value, expiry.\<close>

record RedisSetCall =
  SetKey :: string
  SetValue :: string
  SetExpiry :: int

text \<open>
  Both store functions end in \<open>return common.RedisSet(key, value, expiry)\<close>.  The model
  returns that call, \<open>None\<close> when the function returns before it; \<open>StoreCacheEntry\<close>
  can also return the error of \<open>json.Marshal\<close>, and takes the reading of
  \<open>time.Now()\<close>.
\<close>

definition StoreFuzzyEntry :: "env \<Rightarrow> string \<Rightarrow> string \<Rightarrow> int \<Rightarrow> string \<Rightarrow> RedisSetCall option" where
  "StoreFuzzyEntry env model systemHash tokenCount ttl =
     (if \<not> RedisEnabled env \<or> systemHash = '''' then None
      else
        (let key = GetFuzzyCacheKey model systemHash;
             expiry = (if ttl = ''1h'' then TTL1h else TTL5m);
             data = [(''tokens'', VInt tokenCount), (''ttl'', VString ttl)]
         in Some \<lparr>SetKey = key, SetValue = marshalMap env data, SetExpiry = expiry\<rparr>))"

definition GetFuzzyEntry :: "env \<Rightarrow> string \<Rightarrow> string \<Rightarrow> int \<times> bool" where
  "GetFuzzyEntry env model systemHash =
     (if \<not> RedisEnabled env \<or> systemHash = '''' then (0, False)
      else
        (case RedisGet env (GetFuzzyCacheKey model systemHash) of
           Inl err \<Rightarrow> (0, False)
         | Inr data \<Rightarrow>
             if data = '''' then (0, False)
             else
               (case unmarshalTokens env data of
                  Inl err \<Rightarrow> (0, False)
                | Inr (Some tokens) \<Rightarrow> (tokens, True)
                | Inr None \<Rightarrow> (0, False))))"

definition stampEntry :: "int \<Rightarrow> CacheEntry \<Rightarrow> CacheEntry" where
  "stampEntry now entry =
     (let ttl = (if EntryTTL entry = ''1h'' then TTL1h else TTL5m)
      in entry\<lparr>CreatedAt := now, ExpiresAt := now + ttl\<rparr>)"

definition StoreCacheEntry :: "env \<Rightarrow> int \<Rightarrow> CacheEntry \<Rightarrow> error + RedisSetCall option" where
  "StoreCacheEntry env now entry =
     (if \<not> RedisEnabled env then Inr None
      else
        (let key = GetCacheKey (Model entry) (Hash entry);
             ttl = (if EntryTTL entry = ''1h'' then TTL1h else TTL5m)
         in case marshalCacheEntry env (stampEntry now entry) of
              Inl err \<Rightarrow> Inl err
            | Inr data \<Rightarrow> Inr (Some \<lparr>SetKey = key, SetValue = data, SetExpiry = ttl\<rparr>)))"

definition GetCacheEntry :: "env \<Rightarrow> string \<Rightarrow> string \<Rightarrow> error + CacheEntry option" where
  "GetCacheEntry env model hash =
     (if \<not> RedisEnabled env then Inr None
      else
        (case RedisGet env (GetCacheKey model hash) of
           Inl err \<Rightarrow> Inl err
         | Inr data \<Rightarrow>
             if data = '''' then Inr None
             else
               (case unmarshalCacheEntry env data of
                  Inl err \<Rightarrow> Inl err
                | Inr entry \<Rightarrow> Inr (Some entry))))"

subsection \<open>Cache hit detection\<close>

text \<open>The test \<open>err == nil && entry != nil\<close> on the entry stored for a breakpoint's prefix.\<close>

definition exactEntryFound :: "env \<Rightarrow> ClaudeRequest \<Rightarrow> string \<Rightarrow> CacheBreakpoint \<Rightarrow> bool" where
  "exactEntryFound env req model bp =
     (let prefix = BuildPrefixUpToBreakpoint env req bp;
          hash = CalculatePrefixHash env prefix model
      in case GetCacheEntry env model hash of
           Inr (Some entry) \<Rightarrow> True
         | Inr None \<Rightarrow> False
         | Inl err \<Rightarrow> False)"

text \<open>
  The scan \<open>for i := len(breakpoints) - 1; i >= 0; i--\<close>, shared by \<open>CheckCacheHits\<close> and
  \<open>applyLocalCacheSimulation\<close>: the last argument is \<open>i + 1\<close>, the result the index it
  breaks at, \<open>None\<close> when it runs to the end.
\<close>

fun findExactHit ::
  "env \<Rightarrow> ClaudeRequest \<Rightarrow> string \<Rightarrow> int \<Rightarrow> CacheBreakpoint list \<Rightarrow> nat \<Rightarrow> nat option" where
  "findExactHit env req model minTokens bps 0 = None"
| "findExactHit env req model minTokens bps (Suc i) =
     (let bp = bps ! i
      in if TokenCount bp < minTokens then findExactHit env req model minTokens bps i
         else if exactEntryFound env req model bp then Some i
         else findExactHit env req model minTokens bps i)"

definition creditResult :: "CacheBreakpoint \<Rightarrow> int \<Rightarrow> CacheResult \<Rightarrow> CacheResult" where
  "creditResult bp creationTokens result =
     (let r = (if TTL bp = ''1h''
               then result\<lparr>CacheCreation1h := CacheCreation1h result + creationTokens\<rparr>
               else result\<lparr>CacheCreation5m := CacheCreation5m result + creationTokens\<rparr>)
      in r\<lparr>CacheCreationTokens := CacheCreationTokens r + creationTokens\<rparr>)"

text \<open>
  The two creation loops of \<open>CheckCacheHits\<close> have one body; the second component is
  \<open>lastHitTokens\<close> in the first and \<open>prevTokens\<close> in the second.
\<close>

fun creationLoop :: "int \<Rightarrow> CacheBreakpoint list \<Rightarrow> CacheResult \<times> int \<Rightarrow> CacheResult \<times> int" where
  "creationLoop minTokens [] (result, prevTokens) = (result, prevTokens)"
| "creationLoop minTokens (bp # bps) (result, prevTokens) =
     (if TokenCount bp \<ge> minTokens
      then creationLoop minTokens bps
             (creditResult bp (TokenCount bp - prevTokens) result, TokenCount bp)
      else creationLoop minTokens bps (result, prevTokens))"

text \<open>The value of a 64-bit signed integer after an operation whose exact result is \<open>x\<close>.\<close>

definition int64 :: "int \<Rightarrow> int" where
  "int64 x = (x + 9223372036854775808) mod 18446744073709551616 - 9223372036854775808"

definition remainingInput :: "int \<Rightarrow> CacheBreakpoint list \<Rightarrow> CacheResult \<Rightarrow> CacheResult" where
  "remainingInput totalInputTokens bps result =
     (if length bps > 0 then
        (let lastBp = bps ! (length bps - 1);
             n = int64 (totalInputTokens - TokenCount lastBp)
         in result\<lparr>InputTokens := (if n < 0 then 0 else n)\<rparr>)
      else result)"

definition CheckCacheHits :: "env \<Rightarrow> ClaudeRequest \<Rightarrow> string \<Rightarrow> int \<Rightarrow> CacheResult" where
  "CheckCacheHits env req model totalInputTokens =
     (let bps = ExtractCacheBreakpoints env req model;
          result = \<lparr>Hit = False, CacheReadTokens = 0, CacheCreationTokens = 0,
                    CacheCreation5m = 0, CacheCreation1h = 0,
                    InputTokens = totalInputTokens,
                    BreakpointHits = replicate (length bps) False\<rparr>
      in if length bps = 0 then result
         else
           (let minTokens = GetMinCacheableTokens model
            in case findExactHit env req model minTokens bps (length bps) of
                 Some i \<Rightarrow>
                   (let lastHitTokens = TokenCount (bps ! i);
                        hits = fold (\<lambda>j hs. hs[j := True]) [0..<i] ((BreakpointHits result)[i := True]);
                        r1 = result\<lparr>Hit := True, BreakpointHits := hits,
                                    CacheReadTokens := lastHitTokens\<rparr>;
                        r2 = fst (creationLoop minTokens (drop (i + 1) bps) (r1, lastHitTokens))
                    in remainingInput totalInputTokens bps r2)
               | None \<Rightarrow>
                   (let r1 = fst (creationLoop minTokens bps (result, 0))
                    in remainingInput totalInputTokens bps r1)))"

subsection \<open>The usage reconciler\<close>

text \<open>The local variables of \<open>applyLocalCacheSimulation\<close>.\<close>

record simulation =
  cacheReadTokens :: int
  cacheCreateTokens :: int
  cacheCreate5m :: int
  cacheCreate1h :: int
  lastCacheTokens :: int
  exactHit :: bool

text \<open>The background calls it starts with \<open>go\<close>; they are returned, not run.\<close>

datatype task =
    GoStoreFuzzyEntry string string int string
  | GoStoreCacheBreakpoints string

definition credit :: "CacheBreakpoint \<Rightarrow> int \<Rightarrow> simulation \<Rightarrow> simulation" where
  "credit bp createTokens s =
     (let s1 = (if TTL bp = ''1h''
                then s\<lparr>cacheCreate1h := cacheCreate1h s + createTokens\<rparr>
                else s\<lparr>cacheCreate5m := cacheCreate5m s + createTokens\<rparr>)
      in s1\<lparr>cacheCreateTokens := cacheCreateTokens s1 + createTokens\<rparr>)"

text \<open>The loop over the breakpoints after an exact hit.\<close>

fun createAfterHit :: "int \<Rightarrow> CacheBreakpoint list \<Rightarrow> simulation \<Rightarrow> simulation" where
  "createAfterHit minTokens [] s = s"
| "createAfterHit minTokens (nextBp # bps) s =
     (if TokenCount nextBp \<ge> minTokens
      then createAfterHit minTokens bps
             ((credit nextBp (TokenCount nextBp - lastCacheTokens s) s)
                \<lparr>lastCacheTokens := TokenCount nextBp\<rparr>)
      else createAfterHit minTokens bps s)"

text \<open>The loop over all breakpoints after a fuzzy hit.\<close>

fun createAfterFuzzy :: "int \<Rightarrow> CacheBreakpoint list \<Rightarrow> simulation \<Rightarrow> simulation" where
  "createAfterFuzzy minTokens [] s = s"
| "createAfterFuzzy minTokens (bp # bps) s =
     (if TokenCount bp > lastCacheTokens s \<and> TokenCount bp \<ge> minTokens
      then createAfterFuzzy minTokens bps
             ((credit bp (TokenCount bp - lastCacheTokens s) s)
                \<lparr>lastCacheTokens := TokenCount bp\<rparr>)
      else createAfterFuzzy minTokens bps s)"

text \<open>The loop of step 3, with its own \<open>prevTokens\<close>.\<close>

fun createAll :: "int \<Rightarrow> CacheBreakpoint list \<Rightarrow> simulation \<times> int \<Rightarrow> simulation \<times> int" where
  "createAll minTokens [] (s, prevTokens) = (s, prevTokens)"
| "createAll minTokens (bp # bps) (s, prevTokens) =
     (if TokenCount bp \<ge> minTokens
      then createAll minTokens bps
             ((credit bp (TokenCount bp - prevTokens) s)\<lparr>lastCacheTokens := TokenCount bp\<rparr>,
              TokenCount bp)
      else createAll minTokens bps (s, prevTokens))"

text \<open>Step 1: the exact match.\<close>

definition exactStep ::
  "env \<Rightarrow> ClaudeRequest \<Rightarrow> string \<Rightarrow> int \<Rightarrow> CacheBreakpoint list \<Rightarrow> simulation \<Rightarrow> simulation" where
  "exactStep env req model minTokens bps s =
     (case findExactHit env req model minTokens bps (length bps) of
        Some i \<Rightarrow>
          (let bp = bps ! i
           in createAfterHit minTokens (drop (i + 1) bps)
                (s\<lparr>exactHit := True, cacheReadTokens := TokenCount bp,
                   lastCacheTokens := TokenCount bp\<rparr>))
      | None \<Rightarrow> s)"

text \<open>Step 2: the fuzzy match on the system prompt.\<close>

definition fuzzyStep ::
  "env \<Rightarrow> ClaudeRequest \<Rightarrow> string \<Rightarrow> int \<Rightarrow> CacheBreakpoint list \<Rightarrow> simulation \<Rightarrow> simulation" where
  "fuzzyStep env req model minTokens bps s =
     (if \<not> exactHit s \<and> length bps > 0 then
        (let systemHash = CalculateSystemHash env req model;
             (fuzzyTokens, found) = GetFuzzyEntry env model systemHash
         in if found then
              (if length bps > 0 \<and> TokenCount (bps ! 0) \<ge> minTokens then
                 (let r = (if fuzzyTokens > TokenCount (bps ! 0) then TokenCount (bps ! 0)
                           else fuzzyTokens)
                  in createAfterFuzzy minTokens bps
                       (s\<lparr>cacheReadTokens := r, lastCacheTokens := r\<rparr>))
               else s)
            else s)
      else s)"

text \<open>Step 3: nothing read, so every breakpoint is a creation; a fuzzy entry is scheduled.\<close>

definition missStep ::
  "env \<Rightarrow> ClaudeRequest \<Rightarrow> string \<Rightarrow> int \<Rightarrow> CacheBreakpoint list \<Rightarrow> simulation
     \<Rightarrow> simulation \<times> task list" where
  "missStep env req model minTokens bps s =
     (if cacheReadTokens s = 0 \<and> length bps > 0 then
        (let s1 = fst (createAll minTokens bps (s, 0));
             systemHash = CalculateSystemHash env req model
         in (s1, [GoStoreFuzzyEntry model systemHash (TokenCount (bps ! 0)) (TTL (bps ! 0))]))
      else (s, []))"

definition resolveLocal ::
  "env \<Rightarrow> ClaudeRequest \<Rightarrow> string \<Rightarrow> CacheBreakpoint list \<Rightarrow> simulation \<times> task list" where
  "resolveLocal env req model bps =
     (let minTokens = GetMinCacheableTokens model;
          s0 = \<lparr>cacheReadTokens = 0, cacheCreateTokens = 0, cacheCreate5m = 0,
                cacheCreate1h = 0, lastCacheTokens = 0, exactHit = False\<rparr>;
          s1 = exactStep env req model minTokens bps s0;
          s2 = fuzzyStep env req model minTokens bps s1
      in missStep env req model minTokens bps s2)"

definition nonCacheTokens :: "int \<Rightarrow> int \<Rightarrow> int \<Rightarrow> int" where
  "nonCacheTokens toolsTokens' cacheableTotalTokens lastCacheTokens' =
     (let n = toolsTokens' + (cacheableTotalTokens - lastCacheTokens')
      in if n < 0 then 0 else n)"

text \<open>
  The accounting of a request: the locals after step 3 and the fresh-input figure
  computed from them.
\<close>

definition localAccounting :: "env \<Rightarrow> ClaudeRequest \<Rightarrow> string \<Rightarrow> simulation \<times> int" where
  "localAccounting env req model =
     (let (bps, localTotalTokens, toolsTokens') = ExtractCacheBreakpointsWithTotal env req model;
          cacheableTotalTokens = localTotalTokens - toolsTokens';
          s = fst (resolveLocal env req model bps)
      in (s, nonCacheTokens toolsTokens' cacheableTotalTokens (lastCacheTokens s)))"

definition overrideUsage :: "simulation \<Rightarrow> int \<Rightarrow> Usage \<Rightarrow> Usage" where
  "overrideUsage s nonCache usage =
     (let u1 = usage\<lparr>PromptTokensDetails :=
                        (PromptTokensDetails usage)\<lparr>CachedTokens := cacheReadTokens s,
                                                     CachedCreationTokens := cacheCreateTokens s\<rparr>,
                      ClaudeCacheCreation5mTokens := cacheCreate5m s,
                      ClaudeCacheCreation1hTokens := cacheCreate1h s\<rparr>
      in if nonCache > 0 then u1\<lparr>PromptTokens := nonCache\<rparr> else u1)"

definition applyLocalCacheSimulation ::
  "env \<Rightarrow> ClaudeRequest option \<Rightarrow> string \<Rightarrow> Usage option \<Rightarrow> Usage option \<times> task list" where
  "applyLocalCacheSimulation env reqPtr model usagePtr =
     (case (reqPtr, usagePtr) of
        (Some req, Some usage) \<Rightarrow>
          (let (bps, localTotalTokens, toolsTokens') = ExtractCacheBreakpointsWithTotal env req model
           in if localTotalTokens = 0 then (Some usage, [])
              else
                (let cacheableTotalTokens = localTotalTokens - toolsTokens';
                     (s, tasks) = resolveLocal env req model bps;
                     nonCache = nonCacheTokens toolsTokens' cacheableTotalTokens (lastCacheTokens s)
                 in if cacheReadTokens s = 0 \<and> cacheCreateTokens s = 0 then (Some usage, tasks)
                    else (Some (overrideUsage s nonCache usage),
                          tasks @ [GoStoreCacheBreakpoints model])))
      | _ \<Rightarrow> (usagePtr, []))"

section \<open>Invariants of the extractor\<close>

definition extractionInv :: "extraction \<Rightarrow> bool" where
  "extractionInv st \<longleftrightarrow>
     0 \<le> toolsTokens st \<and> 0 \<le> cacheableTokens st
     \<and> totalTokens st = toolsTokens st + cacheableTokens st
     \<and> sorted (map TokenCount (breakpoints st))
     \<and> sorted_wrt (<) (map BlockIndex (breakpoints st))
     \<and> (\<forall>b \<in> set (breakpoints st).
            0 \<le> TokenCount b \<and> TokenCount b \<le> cacheableTokens st
            \<and> BlockIndex b \<le> globalBlockIndex st)"

section \<open>Invariants of the accounting\<close>

text \<open>The locals before step 1.\<close>

definition noActivity :: simulation where
  "noActivity =
     \<lparr>cacheReadTokens = 0, cacheCreateTokens = 0, cacheCreate5m = 0,
      cacheCreate1h = 0, lastCacheTokens = 0, exactHit = False\<rparr>"

text \<open>
  Reads and creations add up to the last accounted boundary, neither is negative, and
  the boundary lies within the cacheable tokens.
\<close>

definition balanced :: "int \<Rightarrow> simulation \<Rightarrow> bool" where
  "balanced cacheable s \<longleftrightarrow>
     cacheReadTokens s + cacheCreateTokens s = lastCacheTokens s
     \<and> 0 \<le> cacheReadTokens s \<and> 0 \<le> cacheCreateTokens s
     \<and> lastCacheTokens s \<le> cacheable"

section \<open>Example environments and requests\<close>

text \<open>
  A store and a tokenizer to run the definitions on: one token per byte of text, the
  text of a block being its bytes, the digest of a text being the text, and a store
  given by the values under its exact keys and its fuzzy keys.
\<close>

definition exampleEnv :: "bool \<Rightarrow> (string \<Rightarrow> error + string) \<Rightarrow> (string \<Rightarrow> error + int option) \<Rightarrow> env" where
  "exampleEnv enabled redisGet tokensOf =
     \<lparr>RedisEnabled = enabled,
      RedisGet = redisGet,
      unmarshalCacheEntry =
        (\<lambda>data. Inr \<lparr>Hash = data, EntryTokenCount = 0, EntryTTL = ''5m'',
                       CreatedAt = 0, ExpiresAt = 0, Model = ''''\<rparr>),
      unmarshalTokens = tokensOf,
      CountTextToken = (\<lambda>text model. int (length text)),
      extractTextContent = (\<lambda>data. data),
      sha256Hex = (\<lambda>text. text),
      marshalString = (\<lambda>s. s),
      marshalBytes = (\<lambda>b. b),
      marshalInt = (\<lambda>n. ''0''),
      marshalCacheEntry = (\<lambda>entry. Inr (Hash entry))\<rparr>"

text \<open>The store switched off, and the store switched on and empty.\<close>

definition envDisabled :: env where
  "envDisabled = exampleEnv False (\<lambda>key. Inl RedisError) (\<lambda>data. Inl JSONError)"

definition envEmpty :: env where
  "envEmpty = exampleEnv True (\<lambda>key. Inl RedisError) (\<lambda>data. Inl JSONError)"

definition ephemeral :: RawMessage where
  "ephemeral = RawJSON (JObject [(''type'', JString ''ephemeral'')])"

definition ephemeralTTL :: "string \<Rightarrow> RawMessage" where
  "ephemeralTTL ttl = RawJSON (JObject [(''type'', JString ''ephemeral''), (''ttl'', JString ttl)])"

definition block :: "string \<Rightarrow> RawMessage \<Rightarrow> ClaudeMediaMessage" where
  "block bytes cc = \<lparr>MediaBytes = bytes, CacheControl = cc\<rparr>"

definition textMessage :: "string \<Rightarrow> ClaudeMessage" where
  "textMessage bytes = \<lparr>MessageBytes = bytes, Content = StringContent bytes\<rparr>"

definition blockMessage :: "string \<Rightarrow> RawMessage list \<Rightarrow> ClaudeMessage" where
  "blockMessage bytes ccs = \<lparr>MessageBytes = bytes, Content = BlockContent (map (block bytes) ccs)\<rparr>"

text \<open>
  One tool of 7 tokens, a marked system block of 13, and three messages of 5, 8 and 3 of
  which the second is marked: breakpoints at 13 and 26 cacheable tokens, 36 tokens in all.
\<close>

definition firstRequest :: ClaudeRequest where
  "firstRequest =
     \<lparr>Tools = Some [''toolabc''],
      System = Some (BlockSystem [block ''system-prompt'' (ephemeralTTL ''5m'')]),
      Messages = [textMessage ''hello'', blockMessage ''question'' [RawEmpty, ephemeral],
                  textMessage ''bye'']\<rparr>"

text \<open>Five marked messages after a system string; the third message has no text.\<close>

definition fiveMarks :: ClaudeRequest where
  "fiveMarks =
     \<lparr>Tools = None,
      System = Some (StringSystem ''sys''),
      Messages = [blockMessage ''aaaaa'' [ephemeral], blockMessage ''bb'' [ephemeralTTL ''1h''],
                  blockMessage '''' [ephemeral], blockMessage ''dddd'' [ephemeral],
                  blockMessage ''eeeeee'' [ephemeral]]\<rparr>"


text \<open>
  Stores that are switched on: one that holds an entry under every exact key, one that
  holds the exact entry of the system prompt of \<open>firstRequest\<close> only, and one that
  holds nothing but a fuzzy entry of a given count under every fuzzy key.
\<close>

definition envAllExact :: env where
  "envAllExact =
     exampleEnv True
       (\<lambda>key. if take 7 key = ''pcache:'' then Inr ''entry'' else Inl RedisError)
       (\<lambda>data. Inl JSONError)"

definition envSystemEntry :: env where
  "envSystemEntry =
     exampleEnv True
       (\<lambda>key. if key = GetCacheKey ''claude'' ''{model:claude,system:[system-prompt],tools:[toolabc]}''
               then Inr ''entry'' else Inl RedisError)
       (\<lambda>data. Inl JSONError)"

definition envFuzzy :: "int \<Rightarrow> env" where
  "envFuzzy tokens =
     exampleEnv True
       (\<lambda>key. if take 13 key = ''pcache_fuzzy:'' then Inr ''fuzzy'' else Inl RedisError)
       (\<lambda>data. Inr (Some tokens))"

definition upstreamUsage :: Usage where
  "upstreamUsage =
     \<lparr>PromptTokens = 40, CompletionTokens = 9, TotalTokens = 49,
      PromptTokensDetails = \<lparr>CachedTokens = 0, CachedCreationTokens = 0\<rparr>,
      ClaudeCacheCreation5mTokens = 0, ClaudeCacheCreation1hTokens = 0\<rparr>"

text \<open>A system string of 3 tokens and one marked message of 5: nothing follows the breakpoint.\<close>

definition fullyMarked :: ClaudeRequest where
  "fullyMarked =
     \<lparr>Tools = None,
      System = Some (StringSystem ''sys''),
      Messages = [blockMessage ''aaaaa'' [ephemeral]]\<rparr>"

text \<open>A marked system block of 3 tokens, below the threshold, and an unmarked message of 5.\<close>

definition shortMark :: ClaudeRequest where
  "shortMark =
     \<lparr>Tools = None,
      System = Some (BlockSystem [block ''sys'' ephemeral]),
      Messages = [textMessage ''hello'']\<rparr>"

text \<open>The prefix of \<open>firstRequest\<close> up to its second breakpoint.\<close>

definition examplePrefix :: CachePrefix where
  "examplePrefix =
     \<lparr>PrefixTools = [''toolabc''], PrefixSystem = [''system-prompt''],
      PrefixMessages = [''hello'', ''question'']\<rparr>"

text \<open>
  An annotation of another type, and two messages whose second block is marked
  \<open>ephemeral\<close> without \<open>ttl\<close>: in the first the block before it has the other type,
  in the second it is marked for one hour.
\<close>

definition persistent :: RawMessage where
  "persistent = RawJSON (JObject [(''type'', JString ''persistent'')])"

definition laterBlocks :: ClaudeRequest where
  "laterBlocks =
     \<lparr>Tools = None,
      System = None,
      Messages = [blockMessage ''question'' [persistent, ephemeral],
                  blockMessage ''answer'' [ephemeralTTL ''1h'', ephemeral]]\<rparr>"

section \<open>Properties\<close>

subsection \<open>Expiry of stored entries\<close>

lemma TTL_values: "TTL5m = 5 * Minute" "TTL1h = Hour" "5 * Minute \<noteq> Hour"
  by (simp_all add: TTL5m_def TTL1h_def Hour_def Minute_def Second_def)

text \<open>
  C4, as the code has it.  An exact entry and a fuzzy entry are written with an expiry of
  one hour when their TTL class is \<open>1h\<close> and of five minutes for every other class,
  \<open>5m\<close> included; an exact entry's \<open>ExpiresAt\<close> lies that far after its
  \<open>CreatedAt\<close>.
\<close>

theorem ttl_class_expiry:
  assumes "RedisEnabled env" and "systemHash \<noteq> ''''"
    and "marshalCacheEntry env (stampEntry now entry) = Inr data"
  shows "StoreCacheEntry env now entry
           = Inr (Some \<lparr>SetKey = GetCacheKey (Model entry) (Hash entry), SetValue = data,
                         SetExpiry = (if EntryTTL entry = ''1h'' then Hour else 5 * Minute)\<rparr>)
       \<and> ExpiresAt (stampEntry now entry) - CreatedAt (stampEntry now entry)
           = (if EntryTTL entry = ''1h'' then Hour else 5 * Minute)
       \<and> map_option SetExpiry (StoreFuzzyEntry env model systemHash tokenCount ttl)
           = Some (if ttl = ''1h'' then Hour else 5 * Minute)"
  using assms by (simp add: StoreCacheEntry_def StoreFuzzyEntry_def stampEntry_def TTL_values Let_def)

theorem ttl_class_expiry_witness:
  "RedisEnabled envEmpty \<and> ''abc'' \<noteq> ''''
   \<and> marshalCacheEntry envEmpty (stampEntry 7
        \<lparr>Hash = ''h'', EntryTokenCount = 50, EntryTTL = ''1h'', CreatedAt = 0, ExpiresAt = 0,
         Model = ''claude''\<rparr>) = Inr ''h''
   \<and> StoreCacheEntry envEmpty 7
        \<lparr>Hash = ''h'', EntryTokenCount = 50, EntryTTL = ''1h'', CreatedAt = 0, ExpiresAt = 0,
         Model = ''claude''\<rparr>
       = Inr (Some \<lparr>SetKey = ''pcache:claude:h'', SetValue = ''h'', SetExpiry = Hour\<rparr>)
   \<and> map_option SetExpiry (StoreFuzzyEntry envEmpty ''claude'' ''abc'' 50 ''5m'') = Some (5 * Minute)"
proof -
  have on: "RedisEnabled envEmpty" by (simp add: envEmpty_def exampleEnv_def)
  have ne: "''abc'' \<noteq> ''''" by simp
  have enc: "marshalCacheEntry envEmpty (stampEntry 7
        \<lparr>Hash = ''h'', EntryTokenCount = 50, EntryTTL = ''1h'', CreatedAt = 0, ExpiresAt = 0,
         Model = ''claude''\<rparr>) = Inr ''h''"
    by (simp add: envEmpty_def exampleEnv_def stampEntry_def Let_def)
  have key: "GetCacheKey ''claude'' ''h'' = ''pcache:claude:h''"
    by (simp add: GetCacheKey_def PCacheKeyPrefix_def)
  show ?thesis
    using ttl_class_expiry [OF on ne enc, of "''claude''" 50 "''5m''"] on enc key
    by simp
qed

text \<open>
  C4 as the specification words it fails: a class other than \<open>5m\<close> and \<open>1h\<close>, which
  the extractor hands on as it finds it in the annotation, is stored for five minutes
  and not for one hour.
\<close>

theorem ttl_other_class_counterexample:
  "extractCacheControlTTLFromRaw (ephemeralTTL ''30m'') = ''30m''
   \<and> map_option SetExpiry (StoreFuzzyEntry envEmpty ''claude'' ''abc'' 50 ''30m'') = Some (5 * Minute)
   \<and> StoreCacheEntry envEmpty 7
        \<lparr>Hash = ''h'', EntryTokenCount = 50, EntryTTL = ''30m'', CreatedAt = 0, ExpiresAt = 0,
         Model = ''claude''\<rparr>
       = Inr (Some \<lparr>SetKey = ''pcache:claude:h'', SetValue = ''h'', SetExpiry = 5 * Minute\<rparr>)
   \<and> 5 * Minute \<noteq> Hour"
  by (simp add: extractCacheControlTTLFromRaw_def ephemeralTTL_def keyMatches_def asciiLower_def
      StoreFuzzyEntry_def StoreCacheEntry_def stampEntry_def GetCacheKey_def PCacheKeyPrefix_def
      envEmpty_def exampleEnv_def TTL_values Let_def)

subsection \<open>The breakpoint list\<close>

lemma estimateContentTokens_nonneg:
  "\<forall>text model. 0 \<le> CountTextToken env text model \<Longrightarrow> 0 \<le> estimateContentTokens env data model"
  by (simp add: estimateContentTokens_def Let_def)

lemma addBlock_inv: "0 \<le> tokens \<Longrightarrow> extractionInv st \<Longrightarrow> extractionInv (addBlock tokens st)"
  by (fastforce simp: extractionInv_def addBlock_def)

lemma appendBreakpoint_inv:
  "0 \<le> tokens \<Longrightarrow> extractionInv st
   \<Longrightarrow> extractionInv (appendBreakpoint loc i ttl (addBlock tokens st))"
  by (fastforce simp: extractionInv_def appendBreakpoint_def addBlock_def sorted_append
      sorted_wrt_append)

lemma toolsLoop_inv:
  "\<forall>text model. 0 \<le> CountTextToken env text model \<Longrightarrow> extractionInv st
   \<Longrightarrow> extractionInv (toolsLoop env model tools st)"
proof (induction tools arbitrary: st)
  case Nil
  then show ?case by simp
next
  case (Cons t tools)
  have "0 \<le> estimateContentTokens env t model"
    using Cons.prems(1) by (rule estimateContentTokens_nonneg)
  with Cons.prems(2) have "extractionInv (st\<lparr>toolsTokens := toolsTokens st + estimateContentTokens env t model,
               totalTokens := totalTokens st + estimateContentTokens env t model,
               globalBlockIndex := globalBlockIndex st + 1\<rparr>)"
    by (fastforce simp: extractionInv_def)
  then show ?case using Cons.IH Cons.prems(1) by (simp add: Let_def)
qed

lemma systemStep_inv:
  "\<forall>text model. 0 \<le> CountTextToken env text model \<Longrightarrow> extractionInv st
   \<Longrightarrow> extractionInv (systemStep env model i media st)"
  by (simp add: systemStep_def Let_def addBlock_inv appendBreakpoint_inv estimateContentTokens_nonneg)

lemma messageStep_inv:
  "\<forall>text model. 0 \<le> CountTextToken env text model \<Longrightarrow> extractionInv st
   \<Longrightarrow> extractionInv (messageStep env model i msg st)"
  by (simp add: messageStep_def Let_def addBlock_inv appendBreakpoint_inv estimateContentTokens_nonneg)

lemma systemLoop_inv:
  "\<forall>text model. 0 \<le> CountTextToken env text model \<Longrightarrow> extractionInv st
   \<Longrightarrow> extractionInv (systemLoop env model i systemMedia st)"
  by (induction systemMedia arbitrary: i st) (simp_all add: systemStep_inv)

lemma messagesLoop_inv:
  "\<forall>text model. 0 \<le> CountTextToken env text model \<Longrightarrow> extractionInv st
   \<Longrightarrow> extractionInv (messagesLoop env model i msgs st)"
  by (induction msgs arbitrary: i st) (simp_all add: messageStep_inv)

lemma toolsPass_inv:
  assumes "\<forall>text model. 0 \<le> CountTextToken env text model" and "extractionInv st"
  shows "extractionInv (case tools of None \<Rightarrow> st | Some ts \<Rightarrow> toolsLoop env model ts st)"
  using assms by (cases tools) (simp_all add: toolsLoop_inv)

lemma systemPass_inv:
  assumes "\<forall>text model. 0 \<le> CountTextToken env text model" and "extractionInv st"
  shows "extractionInv (case sys of
                   Some (BlockSystem systemMedia) \<Rightarrow> systemLoop env model 0 systemMedia st
                 | Some (StringSystem s) \<Rightarrow> addBlock (estimateTokens env s model) st
                 | None \<Rightarrow> st)"
proof (cases sys)
  case None
  then show ?thesis using assms by simp
next
  case (Some p)
  then show ?thesis using assms
    by (cases p) (simp_all add: systemLoop_inv addBlock_inv estimateTokens_def)
qed

lemma extractAll_inv:
  assumes "\<forall>text model. 0 \<le> CountTextToken env text model"
  shows "extractionInv (extractAll env req model)"
proof -
  have "extractionInv \<lparr>breakpoints = [], globalBlockIndex = 0, totalTokens = 0,
                 toolsTokens = 0, cacheableTokens = 0\<rparr>"
    by (simp add: extractionInv_def)
  then show ?thesis
    unfolding extractAll_def Let_def
    by (intro messagesLoop_inv systemPass_inv toolsPass_inv assms)
qed



subsection \<open>Cache-control annotations and breakpoints\<close>

lemma decodeMembers_no_ttl:
  "decodeMembers ms (ty0, ttl0) = Some (ty, ttl) \<Longrightarrow> \<forall>(k, v) \<in> set ms. \<not> keyMatches ''ttl'' k
   \<Longrightarrow> ttl = ttl0"
proof (induction ms arbitrary: ty0)
  case Nil
  then show ?case by simp
next
  case (Cons m ms)
  obtain k v where m: "m = (k, v)" by (cases m)
  show ?case
  proof (cases "keyMatches ''type'' k")
    case True
    with Cons.prems m show ?thesis
      by (cases v) (auto dest: Cons.IH)
  next
    case False
    with Cons.prems m show ?thesis by (auto dest: Cons.IH)
  qed
qed

lemma extract_ephemeral_no_ttl:
  assumes "unmarshalCacheControl (RawJSON (JObject ms)) = Some (''ephemeral'', ttl)"
    and "\<forall>(k, v) \<in> set ms. \<not> keyMatches ''ttl'' k"
  shows "extractCacheControlTTLFromRaw (RawJSON (JObject ms)) = ''5m''"
proof -
  have "ttl = ''''" using assms decodeMembers_no_ttl by simp
  then show ?thesis using assms(1) by (simp add: extractCacheControlTTLFromRaw_def)
qed

lemma extract_no_breakpoint:
  assumes "unmarshalCacheControl cc = None
           \<or> (\<exists>ty ttl. unmarshalCacheControl cc = Some (ty, ttl) \<and> ty \<noteq> ''ephemeral'')"
  shows "extractCacheControlTTLFromRaw cc = ''''"
  using assms by (auto simp: extractCacheControlTTLFromRaw_def)

lemma extract_eq_Nil_iff:
  "extractCacheControlTTLFromRaw cc = '''' \<longleftrightarrow>
     (case unmarshalCacheControl cc of None \<Rightarrow> True | Some (ty, ttl) \<Rightarrow> ty \<noteq> ''ephemeral'')"
  by (cases cc) (auto simp: extractCacheControlTTLFromRaw_def split: option.splits)

lemma systemStep_breakpoints:
  "breakpoints (systemStep env model i media st) =
     breakpoints st @
       (if extractCacheControlTTLFromRaw (CacheControl media) = '''' then []
        else [\<lparr>Location = ''system'', Index = i, BlockIndex = globalBlockIndex st + 1,
               TTL = extractCacheControlTTLFromRaw (CacheControl media),
               TokenCount = cacheableTokens st + estimateContentTokens env (MediaBytes media) model\<rparr>])"
  by (auto simp: systemStep_def Let_def appendBreakpoint_def addBlock_def extractCacheControlTTLFromRaw_def)

lemma messageStep_breakpoints:
  "breakpoints (messageStep env model i msg st) =
     breakpoints st @
       (if extractCacheControlFromMessage msg = '''' then []
        else [\<lparr>Location = ''message'', Index = i, BlockIndex = globalBlockIndex st + 1,
               TTL = extractCacheControlFromMessage msg,
               TokenCount = cacheableTokens st + estimateContentTokens env (MessageBytes msg) model\<rparr>])"
  by (simp add: messageStep_def Let_def appendBreakpoint_def addBlock_def)

lemma firstCacheControl_find:
  "firstCacheControl content =
     (case find (\<lambda>m. \<not> rawLen0 (CacheControl m)) content of
        None \<Rightarrow> ''''
      | Some m \<Rightarrow> extractCacheControlTTLFromRaw (CacheControl m))"
  by (induction content) simp_all

lemma extractCacheControlFromMessage_find:
  "extractCacheControlFromMessage msg =
     (case Content msg of
        StringContent s \<Rightarrow> ''''
      | BlockContent content \<Rightarrow>
          (case find (\<lambda>m. \<not> rawLen0 (CacheControl m)) content of
             None \<Rightarrow> ''''
           | Some m \<Rightarrow> extractCacheControlTTLFromRaw (CacheControl m)))"
  by (simp add: extractCacheControlFromMessage_def firstCacheControl_find split: MessageContent.split)

lemma toolsLoop_breakpoints: "breakpoints (toolsLoop env model tools st) = breakpoints st"
  by (induction tools arbitrary: st) (simp_all add: Let_def)

lemma nth_shift:
  "i + 1 \<le> j \<Longrightarrow> (x # xs) ! nat (j - i) = xs ! nat (j - (i + 1))" for i j :: int
proof -
  assume "i + 1 \<le> j"
  then have "nat (j - i) = Suc (nat (j - (i + 1)))" by simp
  then show ?thesis by simp
qed

lemma systemLoop_breakpoints:
  "\<exists>new. breakpoints (systemLoop env model i systemMedia st) = breakpoints st @ new
     \<and> (\<forall>b \<in> set new. Location b = ''system'' \<and> TTL b \<noteq> ''''
            \<and> i \<le> Index b \<and> Index b < i + int (length systemMedia)
            \<and> TTL b = extractCacheControlTTLFromRaw
                        (CacheControl (systemMedia ! nat (Index b - i))))
     \<and> sorted_wrt (<) (map Index new)"
proof (induction systemMedia arbitrary: i st)
  case Nil
  then show ?case by simp
next
  case (Cons media systemMedia)
  obtain new where new:
    "breakpoints (systemLoop env model (i + 1) systemMedia (systemStep env model i media st))
      = breakpoints (systemStep env model i media st) @ new"
    "\<forall>b \<in> set new. Location b = ''system'' \<and> TTL b \<noteq> ''''
            \<and> i + 1 \<le> Index b \<and> Index b < i + 1 + int (length systemMedia)
            \<and> TTL b = extractCacheControlTTLFromRaw
                        (CacheControl (systemMedia ! nat (Index b - (i + 1))))"
    "sorted_wrt (<) (map Index new)"
    using Cons.IH by blast
  let ?first = "if extractCacheControlTTLFromRaw (CacheControl media) = '''' then []
        else [\<lparr>Location = ''system'', Index = i, BlockIndex = globalBlockIndex st + 1,
               TTL = extractCacheControlTTLFromRaw (CacheControl media),
               TokenCount = cacheableTokens st + estimateContentTokens env (MediaBytes media) model\<rparr>]"
  have eq: "breakpoints (systemLoop env model i (media # systemMedia) st) = breakpoints st @ (?first @ new)"
    using new(1) by (simp add: systemStep_breakpoints)
  have all: "\<forall>b \<in> set (?first @ new). Location b = ''system'' \<and> TTL b \<noteq> ''''
            \<and> i \<le> Index b \<and> Index b < i + int (length (media # systemMedia))
            \<and> TTL b = extractCacheControlTTLFromRaw
                        (CacheControl ((media # systemMedia) ! nat (Index b - i)))"
  proof
    fix b assume b: "b \<in> set (?first @ new)"
    show "Location b = ''system'' \<and> TTL b \<noteq> ''''
            \<and> i \<le> Index b \<and> Index b < i + int (length (media # systemMedia))
            \<and> TTL b = extractCacheControlTTLFromRaw
                        (CacheControl ((media # systemMedia) ! nat (Index b - i)))"
    proof (cases "b \<in> set new")
      case True
      then have "i + 1 \<le> Index b" using new(2) by blast
      then show ?thesis using new(2) True nth_shift [of i "Index b" media systemMedia] by auto
    next
      case False
      then show ?thesis using b by (auto split: if_splits)
    qed
  qed
  have srt: "sorted_wrt (<) (map Index (?first @ new))"
    using new(2,3) by (auto simp: sorted_wrt_append)
  show ?case using eq all srt by blast
qed

lemma messagesLoop_breakpoints:
  "\<exists>new. breakpoints (messagesLoop env model i msgs st) = breakpoints st @ new
     \<and> (\<forall>b \<in> set new. Location b = ''message'' \<and> TTL b \<noteq> ''''
            \<and> i \<le> Index b \<and> Index b < i + int (length msgs)
            \<and> TTL b = extractCacheControlFromMessage (msgs ! nat (Index b - i)))
     \<and> sorted_wrt (<) (map Index new)"
proof (induction msgs arbitrary: i st)
  case Nil
  then show ?case by simp
next
  case (Cons msg msgs)
  obtain new where new:
    "breakpoints (messagesLoop env model (i + 1) msgs (messageStep env model i msg st))
      = breakpoints (messageStep env model i msg st) @ new"
    "\<forall>b \<in> set new. Location b = ''message'' \<and> TTL b \<noteq> ''''
            \<and> i + 1 \<le> Index b \<and> Index b < i + 1 + int (length msgs)
            \<and> TTL b = extractCacheControlFromMessage (msgs ! nat (Index b - (i + 1)))"
    "sorted_wrt (<) (map Index new)"
    using Cons.IH by blast
  let ?first = "if extractCacheControlFromMessage msg = '''' then []
        else [\<lparr>Location = ''message'', Index = i, BlockIndex = globalBlockIndex st + 1,
               TTL = extractCacheControlFromMessage msg,
               TokenCount = cacheableTokens st + estimateContentTokens env (MessageBytes msg) model\<rparr>]"
  have eq: "breakpoints (messagesLoop env model i (msg # msgs) st) = breakpoints st @ (?first @ new)"
    using new(1) by (simp add: messageStep_breakpoints)
  have all: "\<forall>b \<in> set (?first @ new). Location b = ''message'' \<and> TTL b \<noteq> ''''
            \<and> i \<le> Index b \<and> Index b < i + int (length (msg # msgs))
            \<and> TTL b = extractCacheControlFromMessage ((msg # msgs) ! nat (Index b - i))"
  proof
    fix b assume b: "b \<in> set (?first @ new)"
    show "Location b = ''message'' \<and> TTL b \<noteq> ''''
            \<and> i \<le> Index b \<and> Index b < i + int (length (msg # msgs))
            \<and> TTL b = extractCacheControlFromMessage ((msg # msgs) ! nat (Index b - i))"
    proof (cases "b \<in> set new")
      case True
      then have "i + 1 \<le> Index b" using new(2) by blast
      then show ?thesis using new(2) True nth_shift [of i "Index b" msg msgs] by auto
    next
      case False
      then show ?thesis using b by (auto split: if_splits)
    qed
  qed
  have srt: "sorted_wrt (<) (map Index (?first @ new))"
    using new(2,3) by (auto simp: sorted_wrt_append)
  show ?case using eq all srt by blast
qed

lemma systemLoop_keeps:
  "set (breakpoints st) \<subseteq> set (breakpoints (systemLoop env model i systemMedia st))"
  using systemLoop_breakpoints [of env model i systemMedia st] by auto

lemma messagesLoop_keeps:
  "set (breakpoints st) \<subseteq> set (breakpoints (messagesLoop env model i msgs st))"
  using messagesLoop_breakpoints [of env model i msgs st] by auto

lemma systemLoop_yields:
  "k < length systemMedia
   \<Longrightarrow> extractCacheControlTTLFromRaw (CacheControl (systemMedia ! k)) \<noteq> ''''
   \<Longrightarrow> \<exists>b \<in> set (breakpoints (systemLoop env model i systemMedia st)).
         Location b = ''system'' \<and> Index b = i + int k
         \<and> TTL b = extractCacheControlTTLFromRaw (CacheControl (systemMedia ! k))"
proof (induction systemMedia arbitrary: i st k)
  case Nil
  then show ?case by simp
next
  case (Cons media systemMedia)
  show ?case
  proof (cases k)
    case 0
    let ?b = "\<lparr>Location = ''system'', Index = i, BlockIndex = globalBlockIndex st + 1,
               TTL = extractCacheControlTTLFromRaw (CacheControl media),
               TokenCount = cacheableTokens st + estimateContentTokens env (MediaBytes media) model\<rparr>"
    have "?b \<in> set (breakpoints (systemStep env model i media st))"
      using Cons.prems(2) 0 by (simp add: systemStep_breakpoints)
    then have "?b \<in> set (breakpoints (systemLoop env model i (media # systemMedia) st))"
      using systemLoop_keeps [of "systemStep env model i media st" env model "i + 1" systemMedia]
      by auto
    then show ?thesis using 0 by (intro bexI [of _ ?b]) simp_all
  next
    case (Suc k')
    then have "k' < length systemMedia"
      and "extractCacheControlTTLFromRaw (CacheControl (systemMedia ! k')) \<noteq> ''''"
      using Cons.prems by simp_all
    from Cons.IH [OF this, of "i + 1" "systemStep env model i media st"]
    show ?thesis using Suc by auto
  qed
qed

lemma messagesLoop_yields:
  "k < length msgs
   \<Longrightarrow> extractCacheControlFromMessage (msgs ! k) \<noteq> ''''
   \<Longrightarrow> \<exists>b \<in> set (breakpoints (messagesLoop env model i msgs st)).
         Location b = ''message'' \<and> Index b = i + int k
         \<and> TTL b = extractCacheControlFromMessage (msgs ! k)"
proof (induction msgs arbitrary: i st k)
  case Nil
  then show ?case by simp
next
  case (Cons msg msgs)
  show ?case
  proof (cases k)
    case 0
    let ?b = "\<lparr>Location = ''message'', Index = i, BlockIndex = globalBlockIndex st + 1,
               TTL = extractCacheControlFromMessage msg,
               TokenCount = cacheableTokens st + estimateContentTokens env (MessageBytes msg) model\<rparr>"
    have "?b \<in> set (breakpoints (messageStep env model i msg st))"
      using Cons.prems(2) 0 by (simp add: messageStep_breakpoints)
    then have "?b \<in> set (breakpoints (messagesLoop env model i (msg # msgs) st))"
      using messagesLoop_keeps [of "messageStep env model i msg st" env model "i + 1" msgs]
      by auto
    then show ?thesis using 0 by (intro bexI [of _ ?b]) simp_all
  next
    case (Suc k')
    then have "k' < length msgs"
      and "extractCacheControlFromMessage (msgs ! k') \<noteq> ''''"
      using Cons.prems by simp_all
    from Cons.IH [OF this, of "i + 1" "messageStep env model i msg st"]
    show ?thesis using Suc by auto
  qed
qed

text \<open>The state after the tools and the system prompt, and the candidates as two runs.\<close>

lemma extractAll_split:
  "\<exists>st2. extractAll env req model = messagesLoop env model 0 (Messages req) st2
     \<and> (\<forall>b \<in> set (breakpoints st2). Location b = ''system'' \<and> TTL b \<noteq> ''''
           \<and> (\<exists>systemMedia. System req = Some (BlockSystem systemMedia)
                 \<and> 0 \<le> Index b \<and> Index b < int (length systemMedia)
                 \<and> TTL b = extractCacheControlTTLFromRaw
                             (CacheControl (systemMedia ! nat (Index b)))))
     \<and> sorted_wrt (<) (map Index (breakpoints st2))
     \<and> (\<forall>systemMedia k. System req = Some (BlockSystem systemMedia) \<and> k < length systemMedia
           \<and> extractCacheControlTTLFromRaw (CacheControl (systemMedia ! k)) \<noteq> '''' \<longrightarrow>
           (\<exists>b \<in> set (breakpoints st2). Location b = ''system'' \<and> Index b = int k
              \<and> TTL b = extractCacheControlTTLFromRaw (CacheControl (systemMedia ! k))))"
proof -
  let ?st0 = "\<lparr>breakpoints = [], globalBlockIndex = 0, totalTokens = 0,
               toolsTokens = 0, cacheableTokens = 0\<rparr>"
  define st1 where "st1 = (case Tools req of None \<Rightarrow> ?st0 | Some tools \<Rightarrow> toolsLoop env model tools ?st0)"
  define st2 where "st2 = (case System req of
                   Some (BlockSystem systemMedia) \<Rightarrow> systemLoop env model 0 systemMedia st1
                 | Some (StringSystem s) \<Rightarrow> addBlock (estimateTokens env s model) st1
                 | None \<Rightarrow> st1)"
  have b1: "breakpoints st1 = []"
    by (simp add: st1_def toolsLoop_breakpoints split: option.split)
  have all: "extractAll env req model = messagesLoop env model 0 (Messages req) st2"
    unfolding extractAll_def st1_def st2_def Let_def ..
  have sys: "(\<forall>b \<in> set (breakpoints st2). Location b = ''system'' \<and> TTL b \<noteq> ''''
           \<and> (\<exists>systemMedia. System req = Some (BlockSystem systemMedia)
                 \<and> 0 \<le> Index b \<and> Index b < int (length systemMedia)
                 \<and> TTL b = extractCacheControlTTLFromRaw
                             (CacheControl (systemMedia ! nat (Index b)))))
     \<and> sorted_wrt (<) (map Index (breakpoints st2))
     \<and> (\<forall>systemMedia k. System req = Some (BlockSystem systemMedia) \<and> k < length systemMedia
           \<and> extractCacheControlTTLFromRaw (CacheControl (systemMedia ! k)) \<noteq> '''' \<longrightarrow>
           (\<exists>b \<in> set (breakpoints st2). Location b = ''system'' \<and> Index b = int k
              \<and> TTL b = extractCacheControlTTLFromRaw (CacheControl (systemMedia ! k))))"
  proof (cases "System req")
    case None
    then show ?thesis using b1 by (simp add: st2_def)
  next
    case (Some p)
    show ?thesis
    proof (cases p)
      case (StringSystem s)
      then show ?thesis using Some b1 by (simp add: st2_def addBlock_def)
    next
      case (BlockSystem systemMedia)
      then have st2: "st2 = systemLoop env model 0 systemMedia st1"
        using Some by (simp add: st2_def)
      obtain new where new:
        "breakpoints (systemLoop env model 0 systemMedia st1) = breakpoints st1 @ new"
        "\<forall>b \<in> set new. Location b = ''system'' \<and> TTL b \<noteq> ''''
            \<and> 0 \<le> Index b \<and> Index b < 0 + int (length systemMedia)
            \<and> TTL b = extractCacheControlTTLFromRaw
                        (CacheControl (systemMedia ! nat (Index b - 0)))"
        "sorted_wrt (<) (map Index new)"
        using systemLoop_breakpoints [of env model 0 systemMedia st1] by blast
      have bp: "breakpoints st2 = new" using new(1) b1 st2 by simp
      have ex: "\<exists>b \<in> set (breakpoints st2). Location b = ''system'' \<and> Index b = int k
              \<and> TTL b = extractCacheControlTTLFromRaw (CacheControl (systemMedia ! k))"
        if "k < length systemMedia"
          and "extractCacheControlTTLFromRaw (CacheControl (systemMedia ! k)) \<noteq> ''''" for k
        using systemLoop_yields [OF that, of env model 0 st1] by (simp add: st2)
      show ?thesis using new(2,3) bp ex Some BlockSystem by auto
    qed
  qed
  show ?thesis using all sys by blast
qed

lemma distinct_with_location:
  "distinct (map Index bps) \<Longrightarrow> distinct (map (\<lambda>b. (Location b, Index b)) bps)"
  by (induction bps) auto

lemma extractAll_candidates:
  "(\<forall>b \<in> set (breakpoints (extractAll env req model)).
      Location b = ''system'' \<longrightarrow>
        TTL b \<noteq> ''''
        \<and> (\<exists>systemMedia. System req = Some (BlockSystem systemMedia)
              \<and> 0 \<le> Index b \<and> Index b < int (length systemMedia)
              \<and> TTL b = extractCacheControlTTLFromRaw (CacheControl (systemMedia ! nat (Index b)))))
   \<and> (\<forall>b \<in> set (breakpoints (extractAll env req model)).
      Location b = ''message'' \<longrightarrow>
        TTL b \<noteq> '''' \<and> 0 \<le> Index b \<and> Index b < int (length (Messages req))
        \<and> TTL b = extractCacheControlFromMessage (Messages req ! nat (Index b)))
   \<and> distinct (map (\<lambda>b. (Location b, Index b)) (breakpoints (extractAll env req model)))
   \<and> (\<forall>systemMedia k. System req = Some (BlockSystem systemMedia) \<and> k < length systemMedia
         \<and> extractCacheControlTTLFromRaw (CacheControl (systemMedia ! k)) \<noteq> '''' \<longrightarrow>
         (\<exists>b \<in> set (breakpoints (extractAll env req model)). Location b = ''system''
            \<and> Index b = int k
            \<and> TTL b = extractCacheControlTTLFromRaw (CacheControl (systemMedia ! k))))
   \<and> (\<forall>k. k < length (Messages req)
         \<and> extractCacheControlFromMessage (Messages req ! k) \<noteq> '''' \<longrightarrow>
         (\<exists>b \<in> set (breakpoints (extractAll env req model)). Location b = ''message''
            \<and> Index b = int k
            \<and> TTL b = extractCacheControlFromMessage (Messages req ! k)))"
proof -
  obtain st2 where st2:
    "extractAll env req model = messagesLoop env model 0 (Messages req) st2"
    "\<forall>b \<in> set (breakpoints st2). Location b = ''system'' \<and> TTL b \<noteq> ''''
           \<and> (\<exists>systemMedia. System req = Some (BlockSystem systemMedia)
                 \<and> 0 \<le> Index b \<and> Index b < int (length systemMedia)
                 \<and> TTL b = extractCacheControlTTLFromRaw
                             (CacheControl (systemMedia ! nat (Index b))))"
    "sorted_wrt (<) (map Index (breakpoints st2))"
    "\<forall>systemMedia k. System req = Some (BlockSystem systemMedia) \<and> k < length systemMedia
           \<and> extractCacheControlTTLFromRaw (CacheControl (systemMedia ! k)) \<noteq> '''' \<longrightarrow>
           (\<exists>b \<in> set (breakpoints st2). Location b = ''system'' \<and> Index b = int k
              \<and> TTL b = extractCacheControlTTLFromRaw (CacheControl (systemMedia ! k)))"
    using extractAll_split [of env req model] by blast
  obtain new where new0:
    "breakpoints (messagesLoop env model 0 (Messages req) st2) = breakpoints st2 @ new"
    "\<forall>b \<in> set new. Location b = ''message'' \<and> TTL b \<noteq> ''''
            \<and> 0 \<le> Index b \<and> Index b < 0 + int (length (Messages req))
            \<and> TTL b = extractCacheControlFromMessage (Messages req ! nat (Index b - 0))"
    "sorted_wrt (<) (map Index new)"
    using messagesLoop_breakpoints [of env model 0 "Messages req" st2] by blast
  have new: "breakpoints (extractAll env req model) = breakpoints st2 @ new"
    "\<forall>b \<in> set new. Location b = ''message'' \<and> TTL b \<noteq> ''''
            \<and> 0 \<le> Index b \<and> Index b < int (length (Messages req))
            \<and> TTL b = extractCacheControlFromMessage (Messages req ! nat (Index b))"
    "sorted_wrt (<) (map Index new)"
    using new0 st2(1) by auto
  have sysP: "\<forall>b \<in> set (breakpoints (extractAll env req model)).
      Location b = ''system'' \<longrightarrow>
        TTL b \<noteq> ''''
        \<and> (\<exists>systemMedia. System req = Some (BlockSystem systemMedia)
              \<and> 0 \<le> Index b \<and> Index b < int (length systemMedia)
              \<and> TTL b = extractCacheControlTTLFromRaw (CacheControl (systemMedia ! nat (Index b))))"
    using new(1,2) st2(2) by auto
  have msgP: "\<forall>b \<in> set (breakpoints (extractAll env req model)).
      Location b = ''message'' \<longrightarrow>
        TTL b \<noteq> '''' \<and> 0 \<le> Index b \<and> Index b < int (length (Messages req))
        \<and> TTL b = extractCacheControlFromMessage (Messages req ! nat (Index b))"
    using new(1,2) st2(2) by auto
  have d1: "distinct (map (\<lambda>b. (Location b, Index b)) (breakpoints st2))"
    using st2(3) by (intro distinct_with_location) (simp add: strict_sorted_iff)
  have d2: "distinct (map (\<lambda>b. (Location b, Index b)) new)"
    using new(3) by (intro distinct_with_location) (simp add: strict_sorted_iff)
  have dist: "distinct (map (\<lambda>b. (Location b, Index b)) (breakpoints (extractAll env req model)))"
    unfolding new(1) using d1 d2 new(2) st2(2) by auto
  have sysE: "\<forall>systemMedia k. System req = Some (BlockSystem systemMedia) \<and> k < length systemMedia
         \<and> extractCacheControlTTLFromRaw (CacheControl (systemMedia ! k)) \<noteq> '''' \<longrightarrow>
         (\<exists>b \<in> set (breakpoints (extractAll env req model)). Location b = ''system''
            \<and> Index b = int k
            \<and> TTL b = extractCacheControlTTLFromRaw (CacheControl (systemMedia ! k)))"
    using st2(4) new(1) by fastforce
  have msgE: "\<forall>k. k < length (Messages req)
         \<and> extractCacheControlFromMessage (Messages req ! k) \<noteq> '''' \<longrightarrow>
         (\<exists>b \<in> set (breakpoints (extractAll env req model)). Location b = ''message''
            \<and> Index b = int k
            \<and> TTL b = extractCacheControlFromMessage (Messages req ! k))"
  proof (intro allI impI)
    fix k assume k: "k < length (Messages req)
         \<and> extractCacheControlFromMessage (Messages req ! k) \<noteq> ''''"
    then show "\<exists>b \<in> set (breakpoints (extractAll env req model)). Location b = ''message''
            \<and> Index b = int k
            \<and> TTL b = extractCacheControlFromMessage (Messages req ! k)"
      using messagesLoop_yields [of k "Messages req" env model 0 st2] st2(1) by simp
  qed
  show ?thesis using sysP msgP dist sysE msgE by blast
qed

text \<open>
  C10, as the code has it.  An annotation that decodes to the type \<open>ephemeral\<close> and has
  no \<open>ttl\<close> member gives the class \<open>5m\<close>; an annotation that does not decode (bytes
  that are not JSON among them) or whose type is not \<open>ephemeral\<close> gives the empty class.
  The class of a message is that of its first content block with an annotation; the
  annotations of the blocks after it are not looked at.  Among the candidates of a
  request, every system block whose annotation gives a class and every message whose
  class is not empty has a breakpoint with that class; every breakpoint carries the
  class, not empty, of its system block or message; and no two breakpoints belong to
  one system block or to one message.  The list returned is the first 4 candidates.
\<close>

theorem cache_control_breakpoint_rules:
  "(unmarshalCacheControl (RawJSON (JObject ms)) = Some (''ephemeral'', ttl)
      \<and> (\<forall>(k, v) \<in> set ms. \<not> keyMatches ''ttl'' k)
      \<longrightarrow> extractCacheControlTTLFromRaw (RawJSON (JObject ms)) = ''5m'')
   \<and> (unmarshalCacheControl cc = None
        \<or> (\<exists>ty t. unmarshalCacheControl cc = Some (ty, t) \<and> ty \<noteq> ''ephemeral'')
      \<longrightarrow> extractCacheControlTTLFromRaw cc = '''')
   \<and> unmarshalCacheControl RawInvalid = None
   \<and> extractCacheControlFromMessage msg =
       (case Content msg of
          StringContent s \<Rightarrow> ''''
        | BlockContent content \<Rightarrow>
            (case find (\<lambda>m. \<not> rawLen0 (CacheControl m)) content of
               None \<Rightarrow> ''''
             | Some m \<Rightarrow> extractCacheControlTTLFromRaw (CacheControl m)))
   \<and> (\<forall>systemMedia k. System req = Some (BlockSystem systemMedia) \<and> k < length systemMedia
         \<and> extractCacheControlTTLFromRaw (CacheControl (systemMedia ! k)) \<noteq> '''' \<longrightarrow>
         (\<exists>b \<in> set (breakpoints (extractAll env req model)). Location b = ''system''
            \<and> Index b = int k
            \<and> TTL b = extractCacheControlTTLFromRaw (CacheControl (systemMedia ! k))))
   \<and> (\<forall>k. k < length (Messages req)
         \<and> extractCacheControlFromMessage (Messages req ! k) \<noteq> '''' \<longrightarrow>
         (\<exists>b \<in> set (breakpoints (extractAll env req model)). Location b = ''message''
            \<and> Index b = int k
            \<and> TTL b = extractCacheControlFromMessage (Messages req ! k)))
   \<and> (\<forall>b \<in> set (breakpoints (extractAll env req model)).
        Location b = ''system'' \<longrightarrow>
          TTL b \<noteq> ''''
          \<and> (\<exists>systemMedia. System req = Some (BlockSystem systemMedia)
                \<and> 0 \<le> Index b \<and> Index b < int (length systemMedia)
                \<and> TTL b = extractCacheControlTTLFromRaw (CacheControl (systemMedia ! nat (Index b)))))
   \<and> (\<forall>b \<in> set (breakpoints (extractAll env req model)).
        Location b = ''message'' \<longrightarrow>
          TTL b \<noteq> '''' \<and> 0 \<le> Index b \<and> Index b < int (length (Messages req))
          \<and> TTL b = extractCacheControlFromMessage (Messages req ! nat (Index b)))
   \<and> distinct (map (\<lambda>b. (Location b, Index b)) (breakpoints (extractAll env req model)))
   \<and> ExtractCacheBreakpoints env req model = take 4 (breakpoints (extractAll env req model))"
proof -
  have a: "unmarshalCacheControl (RawJSON (JObject ms)) = Some (''ephemeral'', ttl)
      \<and> (\<forall>(k, v) \<in> set ms. \<not> keyMatches ''ttl'' k)
      \<longrightarrow> extractCacheControlTTLFromRaw (RawJSON (JObject ms)) = ''5m''"
    using extract_ephemeral_no_ttl by blast
  have b: "unmarshalCacheControl cc = None
        \<or> (\<exists>ty t. unmarshalCacheControl cc = Some (ty, t) \<and> ty \<noteq> ''ephemeral'')
      \<longrightarrow> extractCacheControlTTLFromRaw cc = ''''"
    using extract_no_breakpoint by blast
  have c: "unmarshalCacheControl RawInvalid = None" by simp
  have cut: "ExtractCacheBreakpoints env req model = take 4 (breakpoints (extractAll env req model))"
    by (simp add: ExtractCacheBreakpoints_def ExtractCacheBreakpointsWithTotal_def Let_def
        MaxBreakpoints_def)
  show ?thesis
    using a b c cut extractCacheControlFromMessage_find [of msg]
      extractAll_candidates [of env req model]
    by blast
qed

theorem cache_control_breakpoint_rules_witness:
  "unmarshalCacheControl ephemeral = Some (''ephemeral'', '''')
   \<and> extractCacheControlTTLFromRaw ephemeral = ''5m''
   \<and> unmarshalCacheControl persistent = Some (''persistent'', '''')
   \<and> extractCacheControlTTLFromRaw persistent = ''''
   \<and> extractCacheControlTTLFromRaw RawInvalid = ''''
   \<and> extractCacheControlFromMessage
        (blockMessage ''question'' [RawEmpty, ephemeralTTL ''1h'', ephemeral]) = ''1h''
   \<and> map (\<lambda>b. (Location b, Index b, TTL b)) (ExtractCacheBreakpoints envEmpty firstRequest ''claude'')
       = [(''system'', 0, ''5m''), (''message'', 1, ''5m'')]"
proof -
  have dec: "unmarshalCacheControl (RawJSON (JObject [(''type'', JString ''ephemeral'')]))
               = Some (''ephemeral'', '''')
             \<and> (\<forall>(k, v) \<in> set [(''type'', JString ''ephemeral'')]. \<not> keyMatches ''ttl'' k)"
    by code_simp
  have other: "unmarshalCacheControl persistent = Some (''persistent'', '''')"
    by code_simp
  have msg: "extractCacheControlFromMessage
        (blockMessage ''question'' [RawEmpty, ephemeralTTL ''1h'', ephemeral]) = ''1h''"
    by code_simp
  have bps: "map (\<lambda>b. (Location b, Index b, TTL b)) (ExtractCacheBreakpoints envEmpty firstRequest ''claude'')
       = [(''system'', 0, ''5m''), (''message'', 1, ''5m'')]"
    by code_simp
  have inv: "unmarshalCacheControl RawInvalid = None" by simp
  note rules = cache_control_breakpoint_rules
    [where ms = "[(''type'', JString ''ephemeral'')]" and ttl = "''''" and cc = RawInvalid
       and msg = "blockMessage ''question'' [RawEmpty, ephemeralTTL ''1h'', ephemeral]"
       and env = envEmpty and req = firstRequest and model = "''claude''"]
  note rules2 = cache_control_breakpoint_rules
    [where ms = "[]" and ttl = "''''" and cc = persistent
       and msg = "blockMessage ''question'' [RawEmpty, ephemeralTTL ''1h'', ephemeral]"
       and env = envEmpty and req = firstRequest and model = "''claude''"]
  have five: "extractCacheControlTTLFromRaw ephemeral = ''5m''"
    using rules dec by (simp add: ephemeral_def)
  have none1: "extractCacheControlTTLFromRaw RawInvalid = ''''"
    using rules inv by blast
  have none2: "extractCacheControlTTLFromRaw persistent = ''''"
    using rules2 other by blast
  show ?thesis
    using dec other msg bps five none1 none2 by (simp add: ephemeral_def)
qed

text \<open>
  C10 as it is worded fails for the blocks of a message after the first annotated one.
  In \<open>laterBlocks\<close> both messages have a second block marked \<open>ephemeral\<close> without
  \<open>ttl\<close>, an annotation of class \<open>5m\<close>.  The first message yields no breakpoint, its
  first annotation being of another type; the second yields one breakpoint of class
  \<open>1h\<close>, that of its first block.  No breakpoint of class \<open>5m\<close> is produced.
\<close>

theorem later_annotation_counterexample:
  "extractCacheControlTTLFromRaw ephemeral = ''5m''
   \<and> map extractCacheControlFromMessage (Messages laterBlocks) = ['''', ''1h'']
   \<and> map (\<lambda>b. (Location b, Index b, TTL b)) (breakpoints (extractAll envEmpty laterBlocks ''claude''))
       = [(''message'', 1, ''1h'')]
   \<and> map (\<lambda>b. (Location b, Index b, TTL b)) (ExtractCacheBreakpoints envEmpty laterBlocks ''claude'')
       = [(''message'', 1, ''1h'')]"
  by code_simp

subsection \<open>Hit flags\<close>

lemma GetMinCacheableTokens_eq: "GetMinCacheableTokens model = 5"
  by (simp add: GetMinCacheableTokens_def Let_def MinCacheableTokensOpus_def
      MinCacheableTokensSonnet_def MinCacheableTokensHaiku_def MinCacheableTokensDefault_def)

lemma findExactHit_Some:
  "findExactHit env req model minTokens bps n = Some i
   \<Longrightarrow> i < n \<and> minTokens \<le> TokenCount (bps ! i) \<and> exactEntryFound env req model (bps ! i)"
  by (induction n) (auto simp: Let_def less_Suc_eq split: if_splits)

lemma findExactHit_None:
  "\<forall>b \<in> set bps. \<not> exactEntryFound env req model b \<Longrightarrow> n \<le> length bps
   \<Longrightarrow> findExactHit env req model minTokens bps n = None"
  by (induction n) (auto simp: Let_def)

lemma findExactHit_below:
  "\<forall>b \<in> set bps. TokenCount b < minTokens \<Longrightarrow> n \<le> length bps
   \<Longrightarrow> findExactHit env req model minTokens bps n = None"
  by (induction n) (auto simp: Let_def)

lemma exactEntryFound_disabled: "\<not> RedisEnabled env \<Longrightarrow> \<not> exactEntryFound env req model bp"
  by (simp add: exactEntryFound_def GetCacheEntry_def Let_def)

lemma findExactHit_disabled:
  "\<not> RedisEnabled env \<Longrightarrow> findExactHit env req model minTokens bps (length bps) = None"
  by (rule findExactHit_None) (simp_all add: exactEntryFound_disabled)

lemma mark_shorter_length:
  "length (fold (\<lambda>j hs. hs[j := True]) [0..<k] hits) = length hits"
  by (induction k) simp_all

lemma mark_shorter_nth:
  "m < length hits \<Longrightarrow> fold (\<lambda>j hs. hs[j := True]) [0..<k] hits ! m = (m < k \<or> hits ! m)"
proof (induction k)
  case 0
  then show ?case by simp
next
  case (Suc k)
  then show ?case
    by (cases "m = k") (auto simp: mark_shorter_length nth_list_update less_Suc_eq)
qed

lemma creationLoop_frame:
  "Hit (fst (creationLoop minTokens bps (r, p))) = Hit r
   \<and> BreakpointHits (fst (creationLoop minTokens bps (r, p))) = BreakpointHits r
   \<and> CacheReadTokens (fst (creationLoop minTokens bps (r, p))) = CacheReadTokens r
   \<and> InputTokens (fst (creationLoop minTokens bps (r, p))) = InputTokens r"
  by (induction bps arbitrary: r p) (simp_all add: creditResult_def Let_def)

lemma remainingInput_frame:
  "Hit (remainingInput t bps r) = Hit r
   \<and> BreakpointHits (remainingInput t bps r) = BreakpointHits r
   \<and> CacheReadTokens (remainingInput t bps r) = CacheReadTokens r
   \<and> CacheCreationTokens (remainingInput t bps r) = CacheCreationTokens r"
  by (simp add: remainingInput_def Let_def)

lemma CheckCacheHits_flags:
  "BreakpointHits (CheckCacheHits env req model t) =
     (case findExactHit env req model (GetMinCacheableTokens model)
             (ExtractCacheBreakpoints env req model) (length (ExtractCacheBreakpoints env req model)) of
        None \<Rightarrow> replicate (length (ExtractCacheBreakpoints env req model)) False
      | Some i \<Rightarrow> fold (\<lambda>j hs. hs[j := True]) [0..<i]
                   ((replicate (length (ExtractCacheBreakpoints env req model)) False)[i := True]))"
proof (cases "length (ExtractCacheBreakpoints env req model) = 0")
  case True
  then show ?thesis by (simp add: CheckCacheHits_def)
next
  case False
  then show ?thesis
    by (simp add: CheckCacheHits_def Let_def creationLoop_frame remainingInput_frame
        split: option.split)
qed

text \<open>
  C8.  In the result of \<open>CheckCacheHits\<close> there is one flag per breakpoint, and a flag
  that is set has every flag before it set.
\<close>

theorem hit_flags_downward_closed:
  assumes "i < length (BreakpointHits (CheckCacheHits env req model t))"
    and "BreakpointHits (CheckCacheHits env req model t) ! i"
    and "j < i"
  shows "BreakpointHits (CheckCacheHits env req model t) ! j
       \<and> length (BreakpointHits (CheckCacheHits env req model t))
           = length (ExtractCacheBreakpoints env req model)"
proof -
  let ?bps = "ExtractCacheBreakpoints env req model"
  let ?n = "length ?bps"
  show ?thesis
  proof (cases "findExactHit env req model (GetMinCacheableTokens model) ?bps ?n")
    case None
    then have "BreakpointHits (CheckCacheHits env req model t) = replicate ?n False"
      by (simp add: CheckCacheHits_flags)
    with assms(1,2) show ?thesis by simp
  next
    case (Some k)
    then have k: "k < ?n" by (auto dest: findExactHit_Some)
    have flags: "BreakpointHits (CheckCacheHits env req model t) =
        fold (\<lambda>j hs. hs[j := True]) [0..<k] ((replicate ?n False)[k := True])"
      using Some by (simp add: CheckCacheHits_flags)
    have len: "length (BreakpointHits (CheckCacheHits env req model t)) = ?n"
      by (simp add: flags mark_shorter_length)
    have at: "BreakpointHits (CheckCacheHits env req model t) ! m = (m < k \<or> m = k)" if "m < ?n" for m
      using that k by (simp add: flags mark_shorter_nth nth_list_update)
    from assms(1) len have "i < ?n" by simp
    with assms(2) at have "i \<le> k" by auto
    with assms(3) have "j < k" by simp
    moreover from \<open>j < k\<close> k have "j < ?n" by simp
    ultimately show ?thesis using at len by simp
  qed
qed

theorem hit_flags_downward_closed_witness:
  "BreakpointHits (CheckCacheHits envSystemEntry fiveMarks ''claude'' 40) = [False, False, False, False]
   \<and> BreakpointHits (CheckCacheHits envAllExact fiveMarks ''claude'' 40) = [True, True, True, True]
   \<and> (1::nat) < length (BreakpointHits (CheckCacheHits envAllExact fiveMarks ''claude'' 40))
   \<and> BreakpointHits (CheckCacheHits envAllExact fiveMarks ''claude'' 40) ! 1
   \<and> (0::nat) < 1
   \<and> BreakpointHits (CheckCacheHits envAllExact fiveMarks ''claude'' 40) ! 0"
proof -
  have miss: "BreakpointHits (CheckCacheHits envSystemEntry fiveMarks ''claude'' 40) = [False, False, False, False]"
    by code_simp
  have hit: "BreakpointHits (CheckCacheHits envAllExact fiveMarks ''claude'' 40) = [True, True, True, True]"
    by code_simp
  have a: "(1::nat) < length (BreakpointHits (CheckCacheHits envAllExact fiveMarks ''claude'' 40))"
    by (simp add: hit)
  have b: "BreakpointHits (CheckCacheHits envAllExact fiveMarks ''claude'' 40) ! 1"
    by (simp add: hit)
  have c: "(0::nat) < 1" by simp
  show ?thesis
    using hit_flags_downward_closed [OF a b c] miss hit a b c by blast
qed

subsection \<open>The creation loops\<close>

lemma credit_fields:
  "cacheReadTokens (credit bp c s) = cacheReadTokens s"
  "lastCacheTokens (credit bp c s) = lastCacheTokens s"
  "exactHit (credit bp c s) = exactHit s"
  "cacheCreateTokens (credit bp c s) = cacheCreateTokens s + c"
  by (simp_all add: credit_def Let_def)

lemma createAfterHit_balance:
  "cacheReadTokens (createAfterHit m bps s) = cacheReadTokens s
   \<and> exactHit (createAfterHit m bps s) = exactHit s
   \<and> cacheCreateTokens (createAfterHit m bps s) - lastCacheTokens (createAfterHit m bps s)
       = cacheCreateTokens s - lastCacheTokens s
   \<and> lastCacheTokens (createAfterHit m bps s) \<in> insert (lastCacheTokens s) (TokenCount ` set bps)"
proof (induction bps arbitrary: s)
  case Nil
  then show ?case by simp
next
  case (Cons bp bps)
  show ?case
  proof (cases "TokenCount bp \<ge> m")
    case True
    let ?s = "(credit bp (TokenCount bp - lastCacheTokens s) s)\<lparr>lastCacheTokens := TokenCount bp\<rparr>"
    have "createAfterHit m (bp # bps) s = createAfterHit m bps ?s" using True by simp
    moreover have "cacheReadTokens ?s = cacheReadTokens s" "exactHit ?s = exactHit s"
      "cacheCreateTokens ?s - lastCacheTokens ?s = cacheCreateTokens s - lastCacheTokens s"
      "lastCacheTokens ?s = TokenCount bp"
      by (simp_all add: credit_fields)
    ultimately show ?thesis using Cons.IH [of ?s] by auto
  next
    case False
    then show ?thesis using Cons.IH [of s] by auto
  qed
qed

lemma createAfterHit_mono:
  "sorted (lastCacheTokens s # map TokenCount bps)
   \<Longrightarrow> cacheCreateTokens s \<le> cacheCreateTokens (createAfterHit m bps s)"
proof (induction bps arbitrary: s)
  case Nil
  then show ?case by simp
next
  case (Cons bp bps)
  show ?case
  proof (cases "TokenCount bp \<ge> m")
    case True
    let ?s = "(credit bp (TokenCount bp - lastCacheTokens s) s)\<lparr>lastCacheTokens := TokenCount bp\<rparr>"
    have step: "createAfterHit m (bp # bps) s = createAfterHit m bps ?s" using True by simp
    have "sorted (lastCacheTokens ?s # map TokenCount bps)" using Cons.prems by simp
    then have "cacheCreateTokens ?s \<le> cacheCreateTokens (createAfterHit m bps ?s)" by (rule Cons.IH)
    moreover have "cacheCreateTokens s \<le> cacheCreateTokens ?s"
      using Cons.prems by (simp add: credit_fields)
    ultimately show ?thesis using step by simp
  next
    case False
    have "sorted (lastCacheTokens s # map TokenCount bps)" using Cons.prems by auto
    then show ?thesis using False Cons.IH [of s] by simp
  qed
qed

lemma createAfterFuzzy_balance:
  "cacheReadTokens (createAfterFuzzy m bps s) = cacheReadTokens s
   \<and> exactHit (createAfterFuzzy m bps s) = exactHit s
   \<and> cacheCreateTokens (createAfterFuzzy m bps s) - lastCacheTokens (createAfterFuzzy m bps s)
       = cacheCreateTokens s - lastCacheTokens s
   \<and> lastCacheTokens (createAfterFuzzy m bps s) \<in> insert (lastCacheTokens s) (TokenCount ` set bps)
   \<and> cacheCreateTokens s \<le> cacheCreateTokens (createAfterFuzzy m bps s)"
proof (induction bps arbitrary: s)
  case Nil
  then show ?case by simp
next
  case (Cons bp bps)
  show ?case
  proof (cases "TokenCount bp > lastCacheTokens s \<and> TokenCount bp \<ge> m")
    case True
    let ?s = "(credit bp (TokenCount bp - lastCacheTokens s) s)\<lparr>lastCacheTokens := TokenCount bp\<rparr>"
    have "createAfterFuzzy m (bp # bps) s = createAfterFuzzy m bps ?s" using True by simp
    moreover have "cacheReadTokens ?s = cacheReadTokens s" "exactHit ?s = exactHit s"
      "cacheCreateTokens ?s - lastCacheTokens ?s = cacheCreateTokens s - lastCacheTokens s"
      "lastCacheTokens ?s = TokenCount bp" "cacheCreateTokens s \<le> cacheCreateTokens ?s"
      using True by (simp_all add: credit_fields)
    ultimately show ?thesis using Cons.IH [of ?s] by auto
  next
    case False
    then have "createAfterFuzzy m (bp # bps) s = createAfterFuzzy m bps s" by auto
    then show ?thesis using Cons.IH [of s] by auto
  qed
qed

lemma createAll_balance:
  "cacheReadTokens (fst (createAll m bps (s, p))) = cacheReadTokens s
   \<and> exactHit (fst (createAll m bps (s, p))) = exactHit s
   \<and> cacheCreateTokens (fst (createAll m bps (s, p))) - snd (createAll m bps (s, p))
       = cacheCreateTokens s - p
   \<and> snd (createAll m bps (s, p)) \<in> insert p (TokenCount ` set bps)
   \<and> (lastCacheTokens s = p \<longrightarrow>
        lastCacheTokens (fst (createAll m bps (s, p))) = snd (createAll m bps (s, p)))"
proof (induction bps arbitrary: s p)
  case Nil
  then show ?case by simp
next
  case (Cons bp bps)
  show ?case
  proof (cases "TokenCount bp \<ge> m")
    case True
    let ?s = "(credit bp (TokenCount bp - p) s)\<lparr>lastCacheTokens := TokenCount bp\<rparr>"
    have "createAll m (bp # bps) (s, p) = createAll m bps (?s, TokenCount bp)" using True by simp
    moreover have "cacheReadTokens ?s = cacheReadTokens s" "exactHit ?s = exactHit s"
      "cacheCreateTokens ?s - TokenCount bp = cacheCreateTokens s - p"
      "lastCacheTokens ?s = TokenCount bp"
      by (simp_all add: credit_fields)
    ultimately show ?thesis using Cons.IH [of ?s "TokenCount bp"] by auto
  next
    case False
    then show ?thesis using Cons.IH [of s p] by auto
  qed
qed

lemma createAll_mono:
  "sorted (p # map TokenCount bps)
   \<Longrightarrow> cacheCreateTokens s \<le> cacheCreateTokens (fst (createAll m bps (s, p)))"
proof (induction bps arbitrary: s p)
  case Nil
  then show ?case by simp
next
  case (Cons bp bps)
  show ?case
  proof (cases "TokenCount bp \<ge> m")
    case True
    let ?s = "(credit bp (TokenCount bp - p) s)\<lparr>lastCacheTokens := TokenCount bp\<rparr>"
    have step: "createAll m (bp # bps) (s, p) = createAll m bps (?s, TokenCount bp)" using True by simp
    have "sorted (TokenCount bp # map TokenCount bps)" using Cons.prems by simp
    then have "cacheCreateTokens ?s \<le> cacheCreateTokens (fst (createAll m bps (?s, TokenCount bp)))"
      by (rule Cons.IH)
    moreover have "cacheCreateTokens s \<le> cacheCreateTokens ?s"
      using Cons.prems by (simp add: credit_fields)
    ultimately show ?thesis using step by simp
  next
    case False
    have "sorted (p # map TokenCount bps)" using Cons.prems by auto
    then show ?thesis using False Cons.IH [of p s] by simp
  qed
qed

lemma createAll_last:
  "bps \<noteq> [] \<Longrightarrow> m \<le> TokenCount (last bps) \<Longrightarrow> snd (createAll m bps (s, p)) = TokenCount (last bps)"
proof (induction bps arbitrary: s p)
  case Nil
  then show ?case by simp
next
  case (Cons bp bps)
  show ?case
  proof (cases "bps = []")
    case True
    then show ?thesis using Cons.prems by simp
  next
    case False
    then show ?thesis using Cons.prems Cons.IH by simp
  qed
qed

lemma sorted_last_greatest:
  assumes "sorted (map TokenCount bps)" and "b \<in> set bps"
  shows "TokenCount b \<le> TokenCount (last bps)"
proof -
  obtain i where i: "i < length bps" "bps ! i = b"
    using assms(2) by (auto simp: in_set_conv_nth)
  have ne: "bps \<noteq> []" using assms(2) by auto
  have "map TokenCount bps ! i \<le> map TokenCount bps ! (length bps - 1)"
    using assms(1) i(1) by (intro sorted_nth_mono) simp_all
  then show ?thesis using i ne by (simp add: last_conv_nth)
qed

lemma createAll_none:
  "\<forall>b \<in> set bps. TokenCount b < m \<Longrightarrow> createAll m bps (s, p) = (s, p)"
  by (induction bps) simp_all

lemma creationLoop_balance:
  "CacheCreationTokens (fst (creationLoop m bps (r, p))) - snd (creationLoop m bps (r, p))
     = CacheCreationTokens r - p"
proof (induction bps arbitrary: r p)
  case Nil
  then show ?case by simp
next
  case (Cons bp bps)
  show ?case
  proof (cases "TokenCount bp \<ge> m")
    case True
    have "CacheCreationTokens (creditResult bp (TokenCount bp - p) r) - TokenCount bp
            = CacheCreationTokens r - p"
      by (simp add: creditResult_def Let_def)
    then show ?thesis
      using True Cons.IH [of "creditResult bp (TokenCount bp - p) r" "TokenCount bp"] by simp
  next
    case False
    then show ?thesis using Cons.IH [of r p] by simp
  qed
qed

lemma creationLoop_mono:
  "sorted (p # map TokenCount bps)
   \<Longrightarrow> CacheCreationTokens r \<le> CacheCreationTokens (fst (creationLoop m bps (r, p)))"
proof (induction bps arbitrary: r p)
  case Nil
  then show ?case by simp
next
  case (Cons bp bps)
  show ?case
  proof (cases "TokenCount bp \<ge> m")
    case True
    let ?r = "creditResult bp (TokenCount bp - p) r"
    have "sorted (TokenCount bp # map TokenCount bps)" using Cons.prems by simp
    then have "CacheCreationTokens ?r \<le> CacheCreationTokens (fst (creationLoop m bps (?r, TokenCount bp)))"
      by (rule Cons.IH)
    moreover have "CacheCreationTokens r \<le> CacheCreationTokens ?r"
      using Cons.prems by (simp add: creditResult_def Let_def)
    ultimately show ?thesis using True by simp
  next
    case False
    have "sorted (p # map TokenCount bps)" using Cons.prems by auto
    then show ?thesis using False Cons.IH [of p r] by simp
  qed
qed

lemma creationLoop_last:
  "bps \<noteq> [] \<Longrightarrow> m \<le> TokenCount (last bps) \<Longrightarrow> snd (creationLoop m bps (r, p)) = TokenCount (last bps)"
proof (induction bps arbitrary: r p)
  case Nil
  then show ?case by simp
next
  case (Cons bp bps)
  show ?case
  proof (cases "bps = []")
    case True
    then show ?thesis using Cons.prems by simp
  next
    case False
    then show ?thesis using Cons.prems Cons.IH by simp
  qed
qed

lemma creationLoop_none:
  "\<forall>b \<in> set bps. TokenCount b < m \<Longrightarrow> creationLoop m bps (r, p) = (r, p)"
  by (induction bps) simp_all

subsection \<open>The three steps of the resolution\<close>

lemma sorted_from_nth:
  assumes "sorted (map TokenCount bps)" and "i < length bps"
  shows "sorted (TokenCount (bps ! i) # map TokenCount (drop (Suc i) bps))"
proof -
  have "sorted (drop i (map TokenCount bps))" using assms(1) by (rule sorted_wrt_drop)
  moreover have "drop i bps = bps ! i # drop (Suc i) bps"
    using assms(2) by (simp add: Cons_nth_drop_Suc)
  ultimately show ?thesis by (simp add: drop_map)
qed

lemma exactStep_None:
  "findExactHit env req model m bps (length bps) = None \<Longrightarrow> exactStep env req model m bps s = s"
  by (simp add: exactStep_def)

lemma exactStep_Some:
  assumes hit: "findExactHit env req model m bps (length bps) = Some i"
    and m: "0 < m"
    and srt: "sorted (map TokenCount bps)"
    and bound: "\<forall>b \<in> set bps. TokenCount b \<le> C"
  shows "exactHit (exactStep env req model m bps noActivity)
       \<and> cacheReadTokens (exactStep env req model m bps noActivity) = TokenCount (bps ! i)
       \<and> 0 < cacheReadTokens (exactStep env req model m bps noActivity)
       \<and> balanced C (exactStep env req model m bps noActivity)"
proof -
  have i: "i < length bps" and ge: "m \<le> TokenCount (bps ! i)"
    using hit by (auto dest: findExactHit_Some)
  let ?s = "noActivity\<lparr>exactHit := True, cacheReadTokens := TokenCount (bps ! i),
                        lastCacheTokens := TokenCount (bps ! i)\<rparr>"
  let ?s1 = "createAfterHit m (drop (i + 1) bps) ?s"
  have s1: "exactStep env req model m bps noActivity = ?s1"
    using hit by (simp add: exactStep_def Let_def)
  have start: "cacheReadTokens ?s = TokenCount (bps ! i)" "exactHit ?s"
    "cacheCreateTokens ?s = 0" "lastCacheTokens ?s = TokenCount (bps ! i)"
    by (simp_all add: noActivity_def)
  have bal: "cacheReadTokens ?s1 = TokenCount (bps ! i)" "exactHit ?s1"
    "cacheCreateTokens ?s1 - lastCacheTokens ?s1 = 0 - TokenCount (bps ! i)"
    "lastCacheTokens ?s1 \<in> insert (TokenCount (bps ! i)) (TokenCount ` set (drop (i + 1) bps))"
    using createAfterHit_balance [of m "drop (i + 1) bps" ?s] start by simp_all
  have "sorted (lastCacheTokens ?s # map TokenCount (drop (i + 1) bps))"
    using sorted_from_nth [OF srt i] start by simp
  then have "cacheCreateTokens ?s \<le> cacheCreateTokens ?s1" by (rule createAfterHit_mono)
  then have nonneg: "0 \<le> cacheCreateTokens ?s1" using start by simp
  have "lastCacheTokens ?s1 \<in> TokenCount ` set bps"
    using bal(4) i by (auto dest: in_set_dropD)
  then have le: "lastCacheTokens ?s1 \<le> C" using bound by auto
  show ?thesis
    unfolding s1 balanced_def using bal nonneg le ge m by auto
qed

lemma fuzzyStep_cases:
  assumes m: "0 < m"
    and bound: "\<forall>b \<in> set bps. TokenCount b \<le> C"
    and pos: "snd (GetFuzzyEntry env model (CalculateSystemHash env req model))
              \<longrightarrow> 0 < fst (GetFuzzyEntry env model (CalculateSystemHash env req model))"
  shows "fuzzyStep env req model m bps noActivity = noActivity
       \<or> (0 < cacheReadTokens (fuzzyStep env req model m bps noActivity)
          \<and> balanced C (fuzzyStep env req model m bps noActivity))"
proof -
  obtain f found where fz: "GetFuzzyEntry env model (CalculateSystemHash env req model) = (f, found)"
    by (cases "GetFuzzyEntry env model (CalculateSystemHash env req model)")
  show ?thesis
  proof (cases "bps \<noteq> [] \<and> found \<and> m \<le> TokenCount (bps ! 0)")
    case False
    then have "fuzzyStep env req model m bps noActivity = noActivity"
      by (auto simp: fuzzyStep_def fz Let_def)
    then show ?thesis by simp
  next
    case True
    define r where "r = (if f > TokenCount (bps ! 0) then TokenCount (bps ! 0) else f)"
    let ?s = "noActivity\<lparr>cacheReadTokens := r, lastCacheTokens := r\<rparr>"
    let ?s2 = "createAfterFuzzy m bps ?s"
    have s2: "fuzzyStep env req model m bps noActivity = ?s2"
      using True by (simp add: fuzzyStep_def fz Let_def r_def noActivity_def)
    have "0 < f" using pos True by (simp add: fz)
    then have rpos: "0 < r" using True m by (simp add: r_def)
    have "bps ! 0 \<in> set bps" using True by simp
    then have rle: "r \<le> C" using bound by (fastforce simp: r_def)
    have start: "cacheReadTokens ?s = r" "cacheCreateTokens ?s = 0" "lastCacheTokens ?s = r"
      by (simp_all add: noActivity_def)
    have bal: "cacheReadTokens ?s2 = r"
      "cacheCreateTokens ?s2 - lastCacheTokens ?s2 = 0 - r"
      "lastCacheTokens ?s2 \<in> insert r (TokenCount ` set bps)"
      "0 \<le> cacheCreateTokens ?s2"
      using createAfterFuzzy_balance [of m bps ?s] start by simp_all
    have le: "lastCacheTokens ?s2 \<le> C" using bal(3) rle bound by auto
    show ?thesis
      unfolding s2 balanced_def using bal le rpos by auto
  qed
qed

lemma missStep_skip: "cacheReadTokens s \<noteq> 0 \<Longrightarrow> fst (missStep env req model m bps s) = s"
  by (simp add: missStep_def)

lemma missStep_read:
  "cacheReadTokens (fst (missStep env req model m bps s)) = cacheReadTokens s"
  by (simp add: missStep_def Let_def createAll_balance)

lemma missStep_noActivity:
  assumes srt: "sorted (map TokenCount bps)"
    and bound: "\<forall>b \<in> set bps. 0 \<le> TokenCount b \<and> TokenCount b \<le> C"
    and C: "0 \<le> C"
  shows "cacheReadTokens (fst (missStep env req model m bps noActivity)) = 0
       \<and> balanced C (fst (missStep env req model m bps noActivity))"
proof (cases "bps = []")
  case True
  then show ?thesis using C by (simp add: missStep_def balanced_def noActivity_def)
next
  case False
  let ?s3 = "fst (createAll m bps (noActivity, 0))"
  let ?p = "snd (createAll m bps (noActivity, 0))"
  have s3: "fst (missStep env req model m bps noActivity) = ?s3"
    using False by (simp add: missStep_def Let_def noActivity_def)
  have bal: "cacheReadTokens ?s3 = 0" "cacheCreateTokens ?s3 - ?p = 0"
    "?p \<in> insert 0 (TokenCount ` set bps)" "lastCacheTokens ?s3 = ?p"
    using createAll_balance [of m bps noActivity 0] by (simp_all add: noActivity_def)
  have "sorted (0 # map TokenCount bps)" using srt bound by simp
  then have "cacheCreateTokens noActivity \<le> cacheCreateTokens ?s3" by (rule createAll_mono)
  then have nonneg: "0 \<le> cacheCreateTokens ?s3" by (simp add: noActivity_def)
  have le: "?p \<le> C" using bal(3) bound C by auto
  show ?thesis unfolding s3 balanced_def using bal nonneg le by auto
qed

lemma resolveLocal_balanced:
  assumes srt: "sorted (map TokenCount bps)"
    and bound: "\<forall>b \<in> set bps. 0 \<le> TokenCount b \<and> TokenCount b \<le> C"
    and C: "0 \<le> C"
    and pos: "snd (GetFuzzyEntry env model (CalculateSystemHash env req model))
              \<longrightarrow> 0 < fst (GetFuzzyEntry env model (CalculateSystemHash env req model))"
  shows "balanced C (fst (resolveLocal env req model bps))"
proof -
  let ?m = "GetMinCacheableTokens model"
  let ?s1 = "exactStep env req model ?m bps noActivity"
  let ?s2 = "fuzzyStep env req model ?m bps ?s1"
  have m: "0 < ?m" by (simp add: GetMinCacheableTokens_eq)
  have le: "\<forall>b \<in> set bps. TokenCount b \<le> C" using bound by simp
  have res: "fst (resolveLocal env req model bps) = fst (missStep env req model ?m bps ?s2)"
    by (simp add: resolveLocal_def Let_def noActivity_def)
  show ?thesis
  proof (cases "findExactHit env req model ?m bps (length bps)")
    case (Some i)
    have s1: "exactHit ?s1" "0 < cacheReadTokens ?s1" "balanced C ?s1"
      using exactStep_Some [OF Some m srt le] by simp_all
    have "?s2 = ?s1" using s1(1) by (simp add: fuzzyStep_def)
    then show ?thesis using res s1 by (simp add: missStep_skip)
  next
    case None
    then have s1: "?s1 = noActivity" by (rule exactStep_None)
    from fuzzyStep_cases [OF m le pos]
    show ?thesis
    proof
      assume "fuzzyStep env req model ?m bps noActivity = noActivity"
      then show ?thesis using res s1 missStep_noActivity [OF srt bound C] by simp
    next
      assume "0 < cacheReadTokens (fuzzyStep env req model ?m bps noActivity)
          \<and> balanced C (fuzzyStep env req model ?m bps noActivity)"
      then show ?thesis using res s1 by (simp add: missStep_skip)
    qed
  qed
qed

lemma resolveLocal_fuzzy_read:
  assumes none: "findExactHit env req model (GetMinCacheableTokens model) bps (length bps) = None"
    and fz: "GetFuzzyEntry env model (CalculateSystemHash env req model) = (f, True)"
    and ne: "bps \<noteq> []"
  shows "cacheReadTokens (fst (resolveLocal env req model bps)) =
           (if GetMinCacheableTokens model \<le> TokenCount (bps ! 0)
            then min f (TokenCount (bps ! 0)) else 0)"
proof -
  let ?m = "GetMinCacheableTokens model"
  have s1: "exactStep env req model ?m bps noActivity = noActivity"
    using none by (rule exactStep_None)
  have res: "cacheReadTokens (fst (resolveLocal env req model bps))
               = cacheReadTokens (fuzzyStep env req model ?m bps noActivity)"
    using s1 by (simp add: resolveLocal_def Let_def missStep_read flip: noActivity_def)
  show ?thesis
    unfolding res using ne
    by (simp add: fuzzyStep_def fz Let_def createAfterFuzzy_balance noActivity_def min_def)
qed

lemma GetFuzzyEntry_disabled: "\<not> RedisEnabled env \<Longrightarrow> GetFuzzyEntry env model h = (0, False)"
  by (simp add: GetFuzzyEntry_def)

lemma resolveLocal_disabled:
  assumes "\<not> RedisEnabled env"
  shows "fst (resolveLocal env req model bps)
           = fst (missStep env req model (GetMinCacheableTokens model) bps noActivity)"
proof -
  let ?m = "GetMinCacheableTokens model"
  have s1: "exactStep env req model ?m bps noActivity = noActivity"
    using assms by (intro exactStep_None findExactHit_disabled)
  have s2: "fuzzyStep env req model ?m bps noActivity = noActivity"
    using assms by (simp add: fuzzyStep_def GetFuzzyEntry_disabled Let_def)
  show ?thesis using s1 s2 by (simp add: resolveLocal_def Let_def flip: noActivity_def)
qed

subsection \<open>The accounting of a request\<close>

lemma bps_eq: "ExtractCacheBreakpoints env req model = take 4 (breakpoints (extractAll env req model))"
  by (simp add: ExtractCacheBreakpoints_def ExtractCacheBreakpointsWithTotal_def Let_def
      MaxBreakpoints_def)

lemma extract_eq:
  "ExtractCacheBreakpointsWithTotal env req model =
     (ExtractCacheBreakpoints env req model,
      totalTokens (extractAll env req model), toolsTokens (extractAll env req model))"
  by (simp add: ExtractCacheBreakpoints_def ExtractCacheBreakpointsWithTotal_def Let_def)

lemma extract_facts:
  assumes "\<forall>text model. 0 \<le> CountTextToken env text model"
  shows "sorted (map TokenCount (ExtractCacheBreakpoints env req model))"
    and "\<forall>b \<in> set (ExtractCacheBreakpoints env req model).
           0 \<le> TokenCount b
           \<and> TokenCount b \<le> totalTokens (extractAll env req model) - toolsTokens (extractAll env req model)"
    and "0 \<le> toolsTokens (extractAll env req model)"
    and "0 \<le> totalTokens (extractAll env req model) - toolsTokens (extractAll env req model)"
proof -
  have inv: "extractionInv (extractAll env req model)" using assms by (rule extractAll_inv)
  have "sorted (map TokenCount (breakpoints (extractAll env req model)))"
    using inv by (simp add: extractionInv_def)
  then have "sorted (take 4 (map TokenCount (breakpoints (extractAll env req model))))"
    by (rule sorted_wrt_take)
  then show "sorted (map TokenCount (ExtractCacheBreakpoints env req model))"
    by (simp add: bps_eq take_map)
  show "\<forall>b \<in> set (ExtractCacheBreakpoints env req model).
           0 \<le> TokenCount b
           \<and> TokenCount b \<le> totalTokens (extractAll env req model) - toolsTokens (extractAll env req model)"
    using inv by (auto simp: extractionInv_def bps_eq dest!: in_set_takeD)
  show "0 \<le> toolsTokens (extractAll env req model)"
    using inv by (simp add: extractionInv_def)
  show "0 \<le> totalTokens (extractAll env req model) - toolsTokens (extractAll env req model)"
    using inv by (simp add: extractionInv_def)
qed

lemma localAccounting_eq:
  "fst (localAccounting env req model)
     = fst (resolveLocal env req model (ExtractCacheBreakpoints env req model))"
  "snd (localAccounting env req model)
     = nonCacheTokens (toolsTokens (extractAll env req model))
         (totalTokens (extractAll env req model) - toolsTokens (extractAll env req model))
         (lastCacheTokens (fst (localAccounting env req model)))"
  by (simp_all add: localAccounting_def extract_eq Let_def)

lemma nonCacheTokens_eq: "nonCacheTokens a (t - a) l = max 0 (t - l)"
  by (simp add: nonCacheTokens_def Let_def max_def)

lemma applyLocal_eq:
  "fst (applyLocalCacheSimulation env (Some req) model (Some usage)) =
     (if totalTokens (extractAll env req model) = 0 then Some usage
      else if cacheReadTokens (fst (localAccounting env req model)) = 0
              \<and> cacheCreateTokens (fst (localAccounting env req model)) = 0 then Some usage
      else Some (overrideUsage (fst (localAccounting env req model))
                   (snd (localAccounting env req model)) usage))"
  by (simp add: applyLocalCacheSimulation_def localAccounting_def extract_eq Let_def
      split: prod.split)

lemma localAccounting_balanced:
  assumes nonneg: "\<forall>text model. 0 \<le> CountTextToken env text model"
    and pos: "snd (GetFuzzyEntry env model (CalculateSystemHash env req model))
              \<longrightarrow> 0 < fst (GetFuzzyEntry env model (CalculateSystemHash env req model))"
  shows "balanced (totalTokens (extractAll env req model) - toolsTokens (extractAll env req model))
           (fst (localAccounting env req model))"
  unfolding localAccounting_eq
  using extract_facts [OF nonneg] pos by (intro resolveLocal_balanced)

lemma CheckCacheHits_nil:
  assumes "ExtractCacheBreakpoints env req model = []"
  shows "CacheReadTokens (CheckCacheHits env req model t) = 0"
    and "CacheCreationTokens (CheckCacheHits env req model t) = 0"
    and "InputTokens (CheckCacheHits env req model t) = t"
  using assms by (simp_all add: CheckCacheHits_def)

lemma int64_id: "- 9223372036854775808 \<le> x \<Longrightarrow> x < 9223372036854775808 \<Longrightarrow> int64 x = x"
  by (simp add: int64_def)

lemma remainingInput_value:
  "bps \<noteq> [] \<Longrightarrow> InputTokens (remainingInput t bps r) = max 0 (int64 (t - TokenCount (last bps)))"
  by (simp add: remainingInput_def Let_def last_conv_nth max_def)

lemma CheckCacheHits_miss:
  assumes ne: "ExtractCacheBreakpoints env req model \<noteq> []"
    and none: "findExactHit env req model (GetMinCacheableTokens model)
                 (ExtractCacheBreakpoints env req model)
                 (length (ExtractCacheBreakpoints env req model)) = None"
  shows "CacheReadTokens (CheckCacheHits env req model t) = 0"
    and "Hit (CheckCacheHits env req model t) = False"
    and "CacheCreationTokens (CheckCacheHits env req model t)
           = snd (creationLoop (GetMinCacheableTokens model) (ExtractCacheBreakpoints env req model)
                   (\<lparr>Hit = False, CacheReadTokens = 0, CacheCreationTokens = 0,
                     CacheCreation5m = 0, CacheCreation1h = 0, InputTokens = t,
                     BreakpointHits = replicate (length (ExtractCacheBreakpoints env req model)) False\<rparr>, 0))"
    and "InputTokens (CheckCacheHits env req model t)
           = max 0 (int64 (t - TokenCount (last (ExtractCacheBreakpoints env req model))))"
proof -
  let ?bps = "ExtractCacheBreakpoints env req model"
  let ?r0 = "\<lparr>Hit = False, CacheReadTokens = 0, CacheCreationTokens = 0,
                     CacheCreation5m = 0, CacheCreation1h = 0, InputTokens = t,
                     BreakpointHits = replicate (length ?bps) False\<rparr>"
  let ?m = "GetMinCacheableTokens model"
  have eq: "CheckCacheHits env req model t = remainingInput t ?bps (fst (creationLoop ?m ?bps (?r0, 0)))"
    using ne none by (simp add: CheckCacheHits_def Let_def)
  show "CacheReadTokens (CheckCacheHits env req model t) = 0"
    by (simp add: eq remainingInput_frame creationLoop_frame)
  show "Hit (CheckCacheHits env req model t) = False"
    by (simp add: eq remainingInput_frame creationLoop_frame)
  show "CacheCreationTokens (CheckCacheHits env req model t) = snd (creationLoop ?m ?bps (?r0, 0))"
    using creationLoop_balance [of ?m ?bps ?r0 0] by (simp add: eq remainingInput_frame)
  show "InputTokens (CheckCacheHits env req model t) = max 0 (int64 (t - TokenCount (last ?bps)))"
    using ne by (simp add: eq remainingInput_value)
qed

lemma CheckCacheHits_hit:
  assumes some: "findExactHit env req model (GetMinCacheableTokens model)
                 (ExtractCacheBreakpoints env req model)
                 (length (ExtractCacheBreakpoints env req model)) = Some i"
  shows "CacheReadTokens (CheckCacheHits env req model t)
           = TokenCount (ExtractCacheBreakpoints env req model ! i)"
    and "CacheReadTokens (CheckCacheHits env req model t) + CacheCreationTokens (CheckCacheHits env req model t)
           = snd (creationLoop (GetMinCacheableTokens model)
                   (drop (i + 1) (ExtractCacheBreakpoints env req model))
                   (\<lparr>Hit = True, CacheReadTokens = TokenCount (ExtractCacheBreakpoints env req model ! i),
                     CacheCreationTokens = 0,
                     CacheCreation5m = 0, CacheCreation1h = 0, InputTokens = t,
                     BreakpointHits = fold (\<lambda>j hs. hs[j := True]) [0..<i]
                       ((replicate (length (ExtractCacheBreakpoints env req model)) False)[i := True])\<rparr>,
                    TokenCount (ExtractCacheBreakpoints env req model ! i)))"
    and "InputTokens (CheckCacheHits env req model t)
           = max 0 (int64 (t - TokenCount (last (ExtractCacheBreakpoints env req model))))"
proof -
  let ?bps = "ExtractCacheBreakpoints env req model"
  let ?m = "GetMinCacheableTokens model"
  let ?r1 = "\<lparr>Hit = True, CacheReadTokens = TokenCount (?bps ! i),
                     CacheCreationTokens = 0,
                     CacheCreation5m = 0, CacheCreation1h = 0, InputTokens = t,
                     BreakpointHits = fold (\<lambda>j hs. hs[j := True]) [0..<i]
                       ((replicate (length ?bps) False)[i := True])\<rparr>"
  have i: "i < length ?bps" using some by (auto dest: findExactHit_Some)
  then have ne: "?bps \<noteq> []" by auto
  have eq: "CheckCacheHits env req model t
              = remainingInput t ?bps (fst (creationLoop ?m (drop (i + 1) ?bps) (?r1, TokenCount (?bps ! i))))"
    using ne some by (simp add: CheckCacheHits_def Let_def)
  show "CacheReadTokens (CheckCacheHits env req model t) = TokenCount (?bps ! i)"
    by (simp add: eq remainingInput_frame creationLoop_frame)
  show "CacheReadTokens (CheckCacheHits env req model t) + CacheCreationTokens (CheckCacheHits env req model t)
           = snd (creationLoop ?m (drop (i + 1) ?bps) (?r1, TokenCount (?bps ! i)))"
    using creationLoop_balance [of ?m "drop (i + 1) ?bps" ?r1 "TokenCount (?bps ! i)"]
    by (simp add: eq remainingInput_frame creationLoop_frame)
  show "InputTokens (CheckCacheHits env req model t) = max 0 (int64 (t - TokenCount (last ?bps)))"
    using ne by (simp add: eq remainingInput_value)
qed

lemma CheckCacheHits_account:
  assumes nonneg: "\<forall>text model. 0 \<le> CountTextToken env text model"
    and ne: "ExtractCacheBreakpoints env req model \<noteq> []"
  shows "0 \<le> CacheReadTokens (CheckCacheHits env req model t)
       \<and> 0 \<le> CacheCreationTokens (CheckCacheHits env req model t)
       \<and> InputTokens (CheckCacheHits env req model t)
           = max 0 (int64 (t - TokenCount (last (ExtractCacheBreakpoints env req model))))
       \<and> (GetMinCacheableTokens model \<le> TokenCount (last (ExtractCacheBreakpoints env req model))
            \<longrightarrow> CacheReadTokens (CheckCacheHits env req model t)
                 + CacheCreationTokens (CheckCacheHits env req model t)
               = TokenCount (last (ExtractCacheBreakpoints env req model)))"
proof -
  let ?bps = "ExtractCacheBreakpoints env req model"
  let ?m = "GetMinCacheableTokens model"
  let ?r = "CheckCacheHits env req model t"
  have srt: "sorted (map TokenCount ?bps)" and ge0: "\<forall>b \<in> set ?bps. 0 \<le> TokenCount b"
    using extract_facts(1,2) [OF nonneg, of req model] by auto
  show ?thesis
  proof (cases "findExactHit env req model ?m ?bps (length ?bps)")
    case None
    let ?r0 = "\<lparr>Hit = False, CacheReadTokens = 0, CacheCreationTokens = 0,
                 CacheCreation5m = 0, CacheCreation1h = 0, InputTokens = t,
                 BreakpointHits = replicate (length ?bps) False\<rparr>"
    note miss = CheckCacheHits_miss [OF ne None, of t]
    have "sorted (0 # map TokenCount ?bps)" using srt ge0 by simp
    then have "CacheCreationTokens ?r0 \<le> CacheCreationTokens (fst (creationLoop ?m ?bps (?r0, 0)))"
      by (rule creationLoop_mono)
    then have c0: "0 \<le> snd (creationLoop ?m ?bps (?r0, 0))"
      using creationLoop_balance [of ?m ?bps ?r0 0] by simp
    have sum: "snd (creationLoop ?m ?bps (?r0, 0)) = TokenCount (last ?bps)"
      if "?m \<le> TokenCount (last ?bps)"
      using ne that by (rule creationLoop_last)
    show ?thesis using miss c0 sum by simp
  next
    case (Some i)
    let ?r1 = "\<lparr>Hit = True, CacheReadTokens = TokenCount (?bps ! i),
                 CacheCreationTokens = 0,
                 CacheCreation5m = 0, CacheCreation1h = 0, InputTokens = t,
                 BreakpointHits = fold (\<lambda>j hs. hs[j := True]) [0..<i]
                   ((replicate (length ?bps) False)[i := True])\<rparr>"
    let ?rest = "drop (i + 1) ?bps"
    note hit = CheckCacheHits_hit [OF Some, of t]
    have i: "i < length ?bps" and ge: "?m \<le> TokenCount (?bps ! i)"
      using Some by (auto dest: findExactHit_Some)
    have r0: "0 \<le> TokenCount (?bps ! i)" using ge by (simp add: GetMinCacheableTokens_eq)
    have "sorted (TokenCount (?bps ! i) # map TokenCount ?rest)"
      using sorted_from_nth [OF srt i] by simp
    then have "CacheCreationTokens ?r1 \<le> CacheCreationTokens (fst (creationLoop ?m ?rest (?r1, TokenCount (?bps ! i))))"
      by (rule creationLoop_mono)
    then have c0: "TokenCount (?bps ! i) \<le> snd (creationLoop ?m ?rest (?r1, TokenCount (?bps ! i)))"
      using creationLoop_balance [of ?m ?rest ?r1 "TokenCount (?bps ! i)"] by simp
    have sum: "snd (creationLoop ?m ?rest (?r1, TokenCount (?bps ! i))) = TokenCount (last ?bps)"
      if last: "?m \<le> TokenCount (last ?bps)"
    proof (cases "?rest = []")
      case True
      then have "i = length ?bps - 1" using i by simp
      then have "?bps ! i = last ?bps" using ne by (simp add: last_conv_nth)
      then show ?thesis using True by simp
    next
      case False
      then have "last ?rest = last ?bps" by simp
      then show ?thesis using creationLoop_last [OF False, of ?m ?r1 "TokenCount (?bps ! i)"] last by simp
    qed
    show ?thesis using hit c0 r0 sum by auto
  qed
qed

text \<open>
  C1, as the code has it.  With a tokenizer that returns no negative count, and a total
  and a local total that are 64-bit integers:

  \<^item> \<open>CheckCacheHits\<close>, for a total that is not negative, returns no negative read,
    creation or input figure.  Without breakpoints the three add up to the total it
    was given.  When the last breakpoint reaches the threshold, reads and creations add
    up to its token count and the input figure is the total less that token count,
    floored at zero: the three add up to the larger of the total and that token count.
  \<^item> The resolution of \<open>applyLocalCacheSimulation\<close>, when the store holds no fuzzy entry
    with a count of zero or less for the system prompt, gives reads, creations and
    fresh input (the tool tokens among it) that add up to the local total, none of
    them negative.
\<close>

theorem accounting_adds_up:
  assumes nonneg: "\<forall>text model. 0 \<le> CountTextToken env text model"
    and t: "0 \<le> t"
    and t64: "t < 9223372036854775808"
    and tot64: "totalTokens (extractAll env req model) < 9223372036854775808"
  shows "0 \<le> CacheReadTokens (CheckCacheHits env req model t)
       \<and> 0 \<le> CacheCreationTokens (CheckCacheHits env req model t)
       \<and> 0 \<le> InputTokens (CheckCacheHits env req model t)
       \<and> (ExtractCacheBreakpoints env req model = [] \<longrightarrow>
            CacheReadTokens (CheckCacheHits env req model t)
            + CacheCreationTokens (CheckCacheHits env req model t)
            + InputTokens (CheckCacheHits env req model t) = t)
       \<and> (ExtractCacheBreakpoints env req model \<noteq> []
            \<and> GetMinCacheableTokens model \<le> TokenCount (last (ExtractCacheBreakpoints env req model)) \<longrightarrow>
            CacheReadTokens (CheckCacheHits env req model t)
            + CacheCreationTokens (CheckCacheHits env req model t)
              = TokenCount (last (ExtractCacheBreakpoints env req model))
            \<and> InputTokens (CheckCacheHits env req model t)
              = max 0 (t - TokenCount (last (ExtractCacheBreakpoints env req model)))
            \<and> CacheReadTokens (CheckCacheHits env req model t)
              + CacheCreationTokens (CheckCacheHits env req model t)
              + InputTokens (CheckCacheHits env req model t)
              = max t (TokenCount (last (ExtractCacheBreakpoints env req model))))
       \<and> ((snd (GetFuzzyEntry env model (CalculateSystemHash env req model))
              \<longrightarrow> 0 < fst (GetFuzzyEntry env model (CalculateSystemHash env req model))) \<longrightarrow>
            cacheReadTokens (fst (localAccounting env req model))
            + cacheCreateTokens (fst (localAccounting env req model))
            + snd (localAccounting env req model) = totalTokens (extractAll env req model)
            \<and> 0 \<le> cacheReadTokens (fst (localAccounting env req model))
            \<and> 0 \<le> cacheCreateTokens (fst (localAccounting env req model))
            \<and> 0 \<le> snd (localAccounting env req model))"
proof -
  let ?bps = "ExtractCacheBreakpoints env req model"
  let ?r = "CheckCacheHits env req model t"
  have hits: "0 \<le> CacheReadTokens ?r \<and> 0 \<le> CacheCreationTokens ?r \<and> 0 \<le> InputTokens ?r"
  proof (cases "?bps = []")
    case True
    then show ?thesis using t by (simp add: CheckCacheHits_nil)
  next
    case False
    then show ?thesis using CheckCacheHits_account [OF nonneg False, of t] by simp
  qed
  have empty: "?bps = [] \<longrightarrow> CacheReadTokens ?r + CacheCreationTokens ?r + InputTokens ?r = t"
    by (simp add: CheckCacheHits_nil)
  have last: "?bps \<noteq> [] \<and> GetMinCacheableTokens model \<le> TokenCount (last ?bps) \<longrightarrow>
      CacheReadTokens ?r + CacheCreationTokens ?r = TokenCount (last ?bps)
      \<and> InputTokens ?r = max 0 (t - TokenCount (last ?bps))
      \<and> CacheReadTokens ?r + CacheCreationTokens ?r + InputTokens ?r = max t (TokenCount (last ?bps))"
  proof
    assume a: "?bps \<noteq> [] \<and> GetMinCacheableTokens model \<le> TokenCount (last ?bps)"
    then have "last ?bps \<in> set ?bps" by simp
    then have lo: "0 \<le> TokenCount (last ?bps)"
      and hi: "TokenCount (last ?bps)
                 \<le> totalTokens (extractAll env req model) - toolsTokens (extractAll env req model)"
      using extract_facts(2) [OF nonneg] by blast+
    have "TokenCount (last ?bps) < 9223372036854775808"
      using hi tot64 extract_facts(3) [OF nonneg, of req model] by simp
    then have exact: "int64 (t - TokenCount (last ?bps)) = t - TokenCount (last ?bps)"
      using t t64 lo by (intro int64_id) simp_all
    have "InputTokens ?r = max 0 (t - TokenCount (last ?bps))"
      and "CacheReadTokens ?r + CacheCreationTokens ?r = TokenCount (last ?bps)"
      using a CheckCacheHits_account [OF nonneg, of req model t] exact by simp_all
    then show "CacheReadTokens ?r + CacheCreationTokens ?r = TokenCount (last ?bps)
      \<and> InputTokens ?r = max 0 (t - TokenCount (last ?bps))
      \<and> CacheReadTokens ?r + CacheCreationTokens ?r + InputTokens ?r = max t (TokenCount (last ?bps))"
      by simp
  qed
  have local: "cacheReadTokens (fst (localAccounting env req model))
            + cacheCreateTokens (fst (localAccounting env req model))
            + snd (localAccounting env req model) = totalTokens (extractAll env req model)
            \<and> 0 \<le> cacheReadTokens (fst (localAccounting env req model))
            \<and> 0 \<le> cacheCreateTokens (fst (localAccounting env req model))
            \<and> 0 \<le> snd (localAccounting env req model)"
    if pos: "snd (GetFuzzyEntry env model (CalculateSystemHash env req model))
              \<longrightarrow> 0 < fst (GetFuzzyEntry env model (CalculateSystemHash env req model))"
  proof -
    let ?s = "fst (localAccounting env req model)"
    let ?st = "extractAll env req model"
    have bal: "balanced (totalTokens ?st - toolsTokens ?st) ?s"
      using nonneg pos by (rule localAccounting_balanced)
    have tools: "0 \<le> toolsTokens ?st" using extract_facts(3) [OF nonneg] .
    have fresh: "snd (localAccounting env req model) = max 0 (totalTokens ?st - lastCacheTokens ?s)"
      by (simp add: localAccounting_eq(2) nonCacheTokens_eq)
    show ?thesis using bal tools unfolding fresh balanced_def by auto
  qed
  show ?thesis using hits empty last local by blast
qed

lemma example_nonneg:
  "\<forall>text model. 0 \<le> CountTextToken (exampleEnv enabled redisGet tokensOf) text model"
  by (simp add: exampleEnv_def)

theorem accounting_adds_up_witness:
  "(\<forall>text model. 0 \<le> CountTextToken (envFuzzy 9) text model) \<and> (0::int) \<le> 40
   \<and> (40::int) < 9223372036854775808
   \<and> totalTokens (extractAll (envFuzzy 9) firstRequest ''claude'') < 9223372036854775808
   \<and> map TokenCount (ExtractCacheBreakpoints (envFuzzy 9) firstRequest ''claude'') = [13, 26]
   \<and> GetMinCacheableTokens ''claude'' = 5
   \<and> GetFuzzyEntry (envFuzzy 9) ''claude'' (CalculateSystemHash (envFuzzy 9) firstRequest ''claude'') = (9, True)
   \<and> CacheReadTokens (CheckCacheHits (envFuzzy 9) firstRequest ''claude'' 40)
      + CacheCreationTokens (CheckCacheHits (envFuzzy 9) firstRequest ''claude'' 40)
      + InputTokens (CheckCacheHits (envFuzzy 9) firstRequest ''claude'' 40) = 40
   \<and> cacheReadTokens (fst (localAccounting (envFuzzy 9) firstRequest ''claude'')) = 9
   \<and> cacheCreateTokens (fst (localAccounting (envFuzzy 9) firstRequest ''claude'')) = 17
   \<and> snd (localAccounting (envFuzzy 9) firstRequest ''claude'') = 10
   \<and> totalTokens (extractAll (envFuzzy 9) firstRequest ''claude'') = 36"
proof -
  have nonneg: "\<forall>text model. 0 \<le> CountTextToken (envFuzzy 9) text model"
    unfolding envFuzzy_def by (rule example_nonneg)
  have t: "(0::int) \<le> 40" by simp
  have t64: "(40::int) < 9223372036854775808" by simp
  have tot64: "totalTokens (extractAll (envFuzzy 9) firstRequest ''claude'') < 9223372036854775808"
    by code_simp
  have bps: "map TokenCount (ExtractCacheBreakpoints (envFuzzy 9) firstRequest ''claude'') = [13, 26]"
    by code_simp
  have lst: "TokenCount (last (ExtractCacheBreakpoints (envFuzzy 9) firstRequest ''claude'')) = 26"
    by code_simp
  have ne: "ExtractCacheBreakpoints (envFuzzy 9) firstRequest ''claude'' \<noteq> []"
    using bps by auto
  have m: "GetMinCacheableTokens ''claude'' = 5" by (rule GetMinCacheableTokens_eq)
  have fz: "GetFuzzyEntry (envFuzzy 9) ''claude'' (CalculateSystemHash (envFuzzy 9) firstRequest ''claude'') = (9, True)"
    by code_simp
  have s: "cacheReadTokens (fst (localAccounting (envFuzzy 9) firstRequest ''claude'')) = 9"
    "cacheCreateTokens (fst (localAccounting (envFuzzy 9) firstRequest ''claude'')) = 17"
    "snd (localAccounting (envFuzzy 9) firstRequest ''claude'') = 10"
    by code_simp+
  note sums = accounting_adds_up [OF nonneg t t64 tot64]
  have sum: "CacheReadTokens (CheckCacheHits (envFuzzy 9) firstRequest ''claude'' 40)
      + CacheCreationTokens (CheckCacheHits (envFuzzy 9) firstRequest ''claude'' 40)
      + InputTokens (CheckCacheHits (envFuzzy 9) firstRequest ''claude'' 40) = 40"
    using sums ne lst m by simp
  have total: "totalTokens (extractAll (envFuzzy 9) firstRequest ''claude'') = 36"
    using sums fz s by simp
  show ?thesis using nonneg t t64 tot64 bps m fz sum s total by blast
qed

text \<open>
  C1 as the specification words it fails on \<open>CheckCacheHits\<close>: the input figure is
  floored at zero.  With an upstream total of 3 and breakpoints at 13 and 26 tokens,
  both above the threshold, 26 tokens are created, none is read and the input figure is
  0: the three add up to 26, which is neither the total passed in nor the local total
  of 36.
\<close>

theorem accounting_total_counterexample:
  "map TokenCount (ExtractCacheBreakpoints envEmpty firstRequest ''claude'') = [13, 26]
   \<and> CacheReadTokens (CheckCacheHits envEmpty firstRequest ''claude'' 3) = 0
   \<and> CacheCreationTokens (CheckCacheHits envEmpty firstRequest ''claude'' 3) = 26
   \<and> InputTokens (CheckCacheHits envEmpty firstRequest ''claude'' 3) = 0
   \<and> CacheReadTokens (CheckCacheHits envEmpty firstRequest ''claude'' 3)
     + CacheCreationTokens (CheckCacheHits envEmpty firstRequest ''claude'' 3)
     + InputTokens (CheckCacheHits envEmpty firstRequest ''claude'' 3) \<noteq> 3
   \<and> totalTokens (extractAll envEmpty firstRequest ''claude'') = 36"
  by code_simp

text \<open>
  Two cases are of their own and no part of the statement above.

  A fuzzy entry with the count zero: step 2 credits the creations and leaves the read
  count at zero, and step 3, which runs when the read count is zero, credits them
  again.  Here 52 tokens are created out of 36.
\<close>

lemma fuzzy_zero_credits_twice:
  "GetFuzzyEntry (envFuzzy 0) ''claude'' (CalculateSystemHash (envFuzzy 0) firstRequest ''claude'') = (0, True)
   \<and> cacheReadTokens (fst (localAccounting (envFuzzy 0) firstRequest ''claude'')) = 0
   \<and> cacheCreateTokens (fst (localAccounting (envFuzzy 0) firstRequest ''claude'')) = 52
   \<and> snd (localAccounting (envFuzzy 0) firstRequest ''claude'') = 10
   \<and> totalTokens (extractAll (envFuzzy 0) firstRequest ''claude'') = 36"
  by code_simp

text \<open>
  A last breakpoint below the threshold: \<open>CheckCacheHits\<close> takes its token count off
  the total though it credits it nowhere, where \<open>applyLocalCacheSimulation\<close> takes off the
  last credited boundary only.  With a marked system block of 3 tokens and a total of
  8, \<open>CheckCacheHits\<close> reports 5 input tokens and nothing read or created; the
  resolution of \<open>applyLocalCacheSimulation\<close> counts all 8 as fresh input.
\<close>

lemma short_breakpoint_taken_off:
  "map TokenCount (ExtractCacheBreakpoints envEmpty shortMark ''claude'') = [3]
   \<and> CacheReadTokens (CheckCacheHits envEmpty shortMark ''claude'' 8) = 0
   \<and> CacheCreationTokens (CheckCacheHits envEmpty shortMark ''claude'' 8) = 0
   \<and> InputTokens (CheckCacheHits envEmpty shortMark ''claude'' 8) = 5
   \<and> snd (localAccounting envEmpty shortMark ''claude'') = 8
   \<and> totalTokens (extractAll envEmpty shortMark ''claude'') = 8"
  by code_simp

text \<open>
  The total is a 64-bit value and the subtraction wraps: taking the 26 tokens of the
  last breakpoint off the least 64-bit integer gives a large positive input figure.
\<close>

lemma remaining_input_wraps:
  "InputTokens (CheckCacheHits envEmpty firstRequest ''claude'' (- 9223372036854775808))
     = 9223372036854775782"
  by code_simp

subsection \<open>The store switched off\<close>

lemma CheckCacheHits_nil_Hit:
  "ExtractCacheBreakpoints env req model = [] \<Longrightarrow> \<not> Hit (CheckCacheHits env req model t)"
  by (simp add: CheckCacheHits_def)

lemma missStep_below:
  assumes "\<forall>b \<in> set bps. TokenCount b < m"
  shows "fst (missStep env req model m bps noActivity) = noActivity"
  using assms by (simp add: missStep_def Let_def createAll_none)

text \<open>
  C2, as the code has it.  With Redis disabled \<open>CheckCacheHits\<close> reports no hit and no
  read tokens, and the resolution of \<open>applyLocalCacheSimulation\<close> reads nothing.  When,
  besides, no breakpoint reaches the minimum cacheable token count, nothing is created
  either and the usage record is returned as it came.  When a breakpoint does reach it
  (and the tokenizer returns no negative count), the creations add up to the token
  count of the last breakpoint and the usage record is overwritten with the local
  figures.
\<close>

theorem store_disabled_no_reads:
  assumes off: "\<not> RedisEnabled env"
  shows "\<not> Hit (CheckCacheHits env req model t)
       \<and> CacheReadTokens (CheckCacheHits env req model t) = 0
       \<and> cacheReadTokens (fst (localAccounting env req model)) = 0
       \<and> ((\<forall>b \<in> set (ExtractCacheBreakpoints env req model).
              TokenCount b < GetMinCacheableTokens model) \<longrightarrow>
            CacheCreationTokens (CheckCacheHits env req model t) = 0
            \<and> cacheCreateTokens (fst (localAccounting env req model)) = 0
            \<and> fst (applyLocalCacheSimulation env (Some req) model (Some usage)) = Some usage)
       \<and> ((\<forall>text model. 0 \<le> CountTextToken env text model)
            \<and> (\<exists>b \<in> set (ExtractCacheBreakpoints env req model).
                  GetMinCacheableTokens model \<le> TokenCount b) \<longrightarrow>
            CacheCreationTokens (CheckCacheHits env req model t)
              = TokenCount (last (ExtractCacheBreakpoints env req model))
            \<and> cacheCreateTokens (fst (localAccounting env req model))
              = TokenCount (last (ExtractCacheBreakpoints env req model))
            \<and> 0 < TokenCount (last (ExtractCacheBreakpoints env req model))
            \<and> fst (applyLocalCacheSimulation env (Some req) model (Some usage))
              = Some (overrideUsage (fst (localAccounting env req model))
                        (snd (localAccounting env req model)) usage))"
proof -
  let ?bps = "ExtractCacheBreakpoints env req model"
  let ?m = "GetMinCacheableTokens model"
  let ?r = "CheckCacheHits env req model t"
  let ?s = "fst (localAccounting env req model)"
  have none: "findExactHit env req model ?m ?bps (length ?bps) = None"
    using off by (rule findExactHit_disabled)
  have hits: "\<not> Hit ?r \<and> CacheReadTokens ?r = 0"
  proof (cases "?bps = []")
    case True
    then show ?thesis by (simp add: CheckCacheHits_nil CheckCacheHits_nil_Hit)
  next
    case False
    then show ?thesis using CheckCacheHits_miss(1,2) [OF False none, of t] by simp
  qed
  have s: "?s = fst (missStep env req model ?m ?bps noActivity)"
    using off by (simp add: localAccounting_eq(1) resolveLocal_disabled)
  have read: "cacheReadTokens ?s = 0"
    by (simp add: s missStep_read noActivity_def)
  have below: "CacheCreationTokens ?r = 0 \<and> cacheCreateTokens ?s = 0
            \<and> fst (applyLocalCacheSimulation env (Some req) model (Some usage)) = Some usage"
    if b: "\<forall>b \<in> set ?bps. TokenCount b < ?m"
  proof -
    have c1: "CacheCreationTokens ?r = 0"
    proof (cases "?bps = []")
      case True
      then show ?thesis by (simp add: CheckCacheHits_nil)
    next
      case False
      show ?thesis using CheckCacheHits_miss(3) [OF False none, of t] b
        by (simp add: creationLoop_none)
    qed
    have c2: "cacheCreateTokens ?s = 0"
      using missStep_below [OF b, of env req] by (simp add: s noActivity_def)
    show ?thesis using c1 c2 read by (simp add: applyLocal_eq)
  qed
  have above: "CacheCreationTokens ?r = TokenCount (last ?bps)
            \<and> cacheCreateTokens ?s = TokenCount (last ?bps)
            \<and> 0 < TokenCount (last ?bps)
            \<and> fst (applyLocalCacheSimulation env (Some req) model (Some usage))
              = Some (overrideUsage ?s (snd (localAccounting env req model)) usage)"
    if nonneg: "\<forall>text model. 0 \<le> CountTextToken env text model"
      and ex: "\<exists>b \<in> set ?bps. ?m \<le> TokenCount b"
  proof -
    obtain b where b: "b \<in> set ?bps" "?m \<le> TokenCount b" using ex by blast
    have ne: "?bps \<noteq> []" using b(1) by auto
    have srt: "sorted (map TokenCount ?bps)" using extract_facts(1) [OF nonneg] .
    have ge: "?m \<le> TokenCount (last ?bps)"
      using sorted_last_greatest [OF srt b(1)] b(2) by simp
    then have pos: "0 < TokenCount (last ?bps)" by (simp add: GetMinCacheableTokens_eq)
    have c1: "CacheCreationTokens ?r = TokenCount (last ?bps)"
      using CheckCacheHits_miss(3) [OF ne none, of t] creationLoop_last [OF ne ge] by simp
    have "?s = fst (createAll ?m ?bps (noActivity, 0))"
    proof -
      have "cacheReadTokens noActivity = 0" by (simp add: noActivity_def)
      then show ?thesis using ne by (simp add: s missStep_def Let_def)
    qed
    then have c2: "cacheCreateTokens ?s = TokenCount (last ?bps)"
      using createAll_balance [of ?m ?bps noActivity 0] createAll_last [OF ne ge, of noActivity 0]
      by (simp add: noActivity_def)
    have "last ?bps \<in> set ?bps" using ne by simp
    then have "TokenCount (last ?bps)
                 \<le> totalTokens (extractAll env req model) - toolsTokens (extractAll env req model)"
      using extract_facts(2) [OF nonneg] by blast
    then have tot: "totalTokens (extractAll env req model) \<noteq> 0"
      using pos extract_facts(3) [OF nonneg, of req model] by simp
    show ?thesis using c1 c2 pos tot by (simp add: applyLocal_eq)
  qed
  show ?thesis using hits read below above by blast
qed

theorem store_disabled_no_reads_witness:
  "\<not> RedisEnabled envDisabled
   \<and> map TokenCount (ExtractCacheBreakpoints envDisabled shortMark ''claude'') = [3]
   \<and> GetMinCacheableTokens ''claude'' = 5
   \<and> \<not> Hit (CheckCacheHits envDisabled shortMark ''claude'' 40)
   \<and> CacheReadTokens (CheckCacheHits envDisabled shortMark ''claude'' 40) = 0
   \<and> CacheCreationTokens (CheckCacheHits envDisabled shortMark ''claude'' 40) = 0
   \<and> fst (applyLocalCacheSimulation envDisabled (Some shortMark) ''claude'' (Some upstreamUsage))
       = Some upstreamUsage"
proof -
  have off: "\<not> RedisEnabled envDisabled" by (simp add: envDisabled_def exampleEnv_def)
  have bps: "map TokenCount (ExtractCacheBreakpoints envDisabled shortMark ''claude'') = [3]"
    by code_simp
  have m: "GetMinCacheableTokens ''claude'' = 5" by (rule GetMinCacheableTokens_eq)
  have "\<forall>t \<in> set (map TokenCount (ExtractCacheBreakpoints envDisabled shortMark ''claude'')). t < 5"
    unfolding bps by simp
  then have below: "\<forall>b \<in> set (ExtractCacheBreakpoints envDisabled shortMark ''claude'').
      TokenCount b < GetMinCacheableTokens ''claude''"
    unfolding m by simp
  show ?thesis
    using store_disabled_no_reads [OF off, of shortMark "''claude''" 40 upstreamUsage]
      off bps m below by blast
qed

text \<open>
  C2 as the specification words it fails: with Redis disabled and breakpoints at 13 and
  26 tokens, both above the threshold of 5, 26 tokens are credited as created and the
  usage record is overwritten.
\<close>

theorem store_disabled_counterexample:
  "\<not> RedisEnabled envDisabled
   \<and> CacheCreationTokens (CheckCacheHits envDisabled firstRequest ''claude'' 40) = 26
   \<and> cacheCreateTokens (fst (localAccounting envDisabled firstRequest ''claude'')) = 26
   \<and> fst (applyLocalCacheSimulation envDisabled (Some firstRequest) ''claude'' (Some upstreamUsage))
       = Some \<lparr>PromptTokens = 10, CompletionTokens = 9, TotalTokens = 49,
               PromptTokensDetails = \<lparr>CachedTokens = 0, CachedCreationTokens = 26\<rparr>,
               ClaudeCacheCreation5mTokens = 26, ClaudeCacheCreation1hTokens = 0\<rparr>
   \<and> fst (applyLocalCacheSimulation envDisabled (Some firstRequest) ''claude'' (Some upstreamUsage))
       \<noteq> Some upstreamUsage"
  by code_simp

subsection \<open>The fresh-input figure\<close>

lemma overrideUsage_PromptTokens:
  "PromptTokens (overrideUsage s n usage) = (if 0 < n then n else PromptTokens usage)"
  by (simp add: overrideUsage_def Let_def)

lemma applyLocal_PromptTokens:
  "map_option PromptTokens (fst (applyLocalCacheSimulation env (Some req) model (Some usage)))
     = Some (if totalTokens (extractAll env req model) \<noteq> 0
               \<and> (cacheReadTokens (fst (localAccounting env req model)) \<noteq> 0
                    \<or> cacheCreateTokens (fst (localAccounting env req model)) \<noteq> 0)
               \<and> 0 < snd (localAccounting env req model)
             then snd (localAccounting env req model) else PromptTokens usage)"
  by (auto simp: applyLocal_eq overrideUsage_PromptTokens)




subsection \<open>The fuzzy fallback\<close>

lemma overrideUsage_CachedTokens:
  "CachedTokens (PromptTokensDetails (overrideUsage s n usage)) = cacheReadTokens s"
  by (simp add: overrideUsage_def Let_def)

text \<open>
  The count handed to \<open>StoreFuzzyEntry\<close> is the token count of the first breakpoint,
  which is not negative.
\<close>

lemma scheduled_fuzzy_count:
  assumes nonneg: "\<forall>text model. 0 \<le> CountTextToken env text model"
    and sched: "GoStoreFuzzyEntry m h n ttl
                  \<in> set (snd (resolveLocal env req model (ExtractCacheBreakpoints env req model)))"
  shows "n = TokenCount (hd (ExtractCacheBreakpoints env req model)) \<and> 0 \<le> n"
proof -
  let ?bps = "ExtractCacheBreakpoints env req model"
  have ne: "?bps \<noteq> []" and n: "n = TokenCount (?bps ! 0)"
    using sched by (auto simp: resolveLocal_def missStep_def Let_def split: if_splits)
  have "hd ?bps \<in> set ?bps" using ne by simp
  then have "0 \<le> TokenCount (hd ?bps)" using extract_facts(2) [OF nonneg] by blast
  then show ?thesis using n ne by (simp add: hd_conv_nth)
qed

text \<open>
  C5.  When the scan finds no exact entry and the store holds a fuzzy entry for the
  system prompt, the tokens credited as read are at most the smaller of the stored count
  and the token count of the first breakpoint; they are that number when the first
  breakpoint reaches the threshold.  The usage record is left as it came or carries
  that read count.  The tokenizer returns no negative count and the stored count is not
  negative, as every count the code stores.
\<close>

theorem fuzzy_read_bound:
  assumes nonneg: "\<forall>text model. 0 \<le> CountTextToken env text model"
    and none: "findExactHit env req model (GetMinCacheableTokens model)
                 (ExtractCacheBreakpoints env req model)
                 (length (ExtractCacheBreakpoints env req model)) = None"
    and fz: "GetFuzzyEntry env model (CalculateSystemHash env req model) = (f, True)"
    and f: "0 \<le> f"
    and ne: "ExtractCacheBreakpoints env req model \<noteq> []"
  shows "cacheReadTokens (fst (localAccounting env req model))
           \<le> min f (TokenCount (hd (ExtractCacheBreakpoints env req model)))
       \<and> (GetMinCacheableTokens model \<le> TokenCount (hd (ExtractCacheBreakpoints env req model))
            \<longrightarrow> cacheReadTokens (fst (localAccounting env req model))
                  = min f (TokenCount (hd (ExtractCacheBreakpoints env req model))))
       \<and> (fst (applyLocalCacheSimulation env (Some req) model (Some usage)) = Some usage
            \<or> map_option (\<lambda>u. CachedTokens (PromptTokensDetails u))
                 (fst (applyLocalCacheSimulation env (Some req) model (Some usage)))
               = Some (cacheReadTokens (fst (localAccounting env req model))))"
proof -
  let ?bps = "ExtractCacheBreakpoints env req model"
  let ?s = "fst (localAccounting env req model)"
  have hd: "hd ?bps = ?bps ! 0" using ne by (simp add: hd_conv_nth)
  have "hd ?bps \<in> set ?bps" using ne by simp
  then have tc0: "0 \<le> TokenCount (hd ?bps)" using extract_facts(2) [OF nonneg] by blast
  have read: "cacheReadTokens ?s =
      (if GetMinCacheableTokens model \<le> TokenCount (hd ?bps) then min f (TokenCount (hd ?bps)) else 0)"
    using resolveLocal_fuzzy_read [OF none fz ne] by (simp add: localAccounting_eq(1) hd)
  have written: "fst (applyLocalCacheSimulation env (Some req) model (Some usage)) = Some usage
            \<or> map_option (\<lambda>u. CachedTokens (PromptTokensDetails u))
                 (fst (applyLocalCacheSimulation env (Some req) model (Some usage)))
               = Some (cacheReadTokens ?s)"
    by (simp add: applyLocal_eq overrideUsage_CachedTokens)
  show ?thesis using read tc0 f written by simp
qed

theorem fuzzy_read_bound_witness:
  "(\<forall>text model. 0 \<le> CountTextToken (envFuzzy 50) text model)
   \<and> findExactHit (envFuzzy 50) firstRequest ''claude'' (GetMinCacheableTokens ''claude'')
        (ExtractCacheBreakpoints (envFuzzy 50) firstRequest ''claude'')
        (length (ExtractCacheBreakpoints (envFuzzy 50) firstRequest ''claude'')) = None
   \<and> GetFuzzyEntry (envFuzzy 50) ''claude'' (CalculateSystemHash (envFuzzy 50) firstRequest ''claude'')
       = (50, True)
   \<and> (0::int) \<le> 50
   \<and> map TokenCount (ExtractCacheBreakpoints (envFuzzy 50) firstRequest ''claude'') = [13, 26]
   \<and> cacheReadTokens (fst (localAccounting (envFuzzy 50) firstRequest ''claude'')) = 13"
proof -
  have nonneg: "\<forall>text model. 0 \<le> CountTextToken (envFuzzy 50) text model"
    unfolding envFuzzy_def by (rule example_nonneg)
  have none: "findExactHit (envFuzzy 50) firstRequest ''claude'' (GetMinCacheableTokens ''claude'')
        (ExtractCacheBreakpoints (envFuzzy 50) firstRequest ''claude'')
        (length (ExtractCacheBreakpoints (envFuzzy 50) firstRequest ''claude'')) = None"
    by code_simp
  have fz: "GetFuzzyEntry (envFuzzy 50) ''claude'' (CalculateSystemHash (envFuzzy 50) firstRequest ''claude'')
       = (50, True)"
    by code_simp
  have f: "(0::int) \<le> 50" by simp
  have bps: "map TokenCount (ExtractCacheBreakpoints (envFuzzy 50) firstRequest ''claude'') = [13, 26]"
    by code_simp
  have ne: "ExtractCacheBreakpoints (envFuzzy 50) firstRequest ''claude'' \<noteq> []"
    using bps by auto
  have first: "TokenCount (hd (ExtractCacheBreakpoints (envFuzzy 50) firstRequest ''claude'')) = 13"
    by code_simp
  have m: "GetMinCacheableTokens ''claude'' = 5" by (rule GetMinCacheableTokens_eq)
  have "cacheReadTokens (fst (localAccounting (envFuzzy 50) firstRequest ''claude'')) = 13"
    using fuzzy_read_bound [OF nonneg none fz f ne, of upstreamUsage] first m by simp
  then show ?thesis using nonneg none fz f bps by blast
qed

subsection \<open>The prompt-token field\<close>

text \<open>
  C6.  The fresh-input figure is never negative.  The prompt-token field of the record
  that \<open>applyLocalCacheSimulation\<close> returns is the upstream's, or it is the fresh-input
  figure and that is positive; when the figure is zero the field is the upstream's.
  With a nil request or a nil record nothing is written at all.
\<close>

theorem prompt_tokens_guard:
  "0 \<le> snd (localAccounting env req model)
   \<and> (map_option PromptTokens (fst (applyLocalCacheSimulation env (Some req) model (Some usage)))
         = Some (PromptTokens usage)
       \<or> (map_option PromptTokens (fst (applyLocalCacheSimulation env (Some req) model (Some usage)))
            = Some (snd (localAccounting env req model))
          \<and> 0 < snd (localAccounting env req model)))
   \<and> (snd (localAccounting env req model) = 0 \<longrightarrow>
        map_option PromptTokens (fst (applyLocalCacheSimulation env (Some req) model (Some usage)))
          = Some (PromptTokens usage))
   \<and> fst (applyLocalCacheSimulation env None model usagePtr) = usagePtr
   \<and> fst (applyLocalCacheSimulation env reqPtr model None) = None"
proof -
  have a: "0 \<le> snd (localAccounting env req model)"
    by (simp add: localAccounting_eq(2) nonCacheTokens_eq)
  have b: "fst (applyLocalCacheSimulation env None model usagePtr) = usagePtr"
    by (simp add: applyLocalCacheSimulation_def)
  have c: "fst (applyLocalCacheSimulation env reqPtr model None) = None"
    by (cases reqPtr) (simp_all add: applyLocalCacheSimulation_def)
  show ?thesis
    using a b c applyLocal_PromptTokens [of env req model usage] by auto
qed

theorem prompt_tokens_guard_witness:
  "snd (localAccounting envEmpty fullyMarked ''claude'') = 0
   \<and> cacheCreateTokens (fst (localAccounting envEmpty fullyMarked ''claude'')) = 8
   \<and> PromptTokens upstreamUsage = 40
   \<and> map_option PromptTokens
        (fst (applyLocalCacheSimulation envEmpty (Some fullyMarked) ''claude'' (Some upstreamUsage)))
       = Some 40
   \<and> map_option (\<lambda>u. CachedCreationTokens (PromptTokensDetails u))
        (fst (applyLocalCacheSimulation envEmpty (Some fullyMarked) ''claude'' (Some upstreamUsage)))
       = Some 8"
proof -
  have zero: "snd (localAccounting envEmpty fullyMarked ''claude'') = 0" by code_simp
  have created: "cacheCreateTokens (fst (localAccounting envEmpty fullyMarked ''claude'')) = 8"
    by code_simp
  have up: "PromptTokens upstreamUsage = 40" by (simp add: upstreamUsage_def)
  have other: "map_option (\<lambda>u. CachedCreationTokens (PromptTokensDetails u))
        (fst (applyLocalCacheSimulation envEmpty (Some fullyMarked) ''claude'' (Some upstreamUsage)))
       = Some 8"
    by code_simp
  have "map_option PromptTokens
        (fst (applyLocalCacheSimulation envEmpty (Some fullyMarked) ''claude'' (Some upstreamUsage)))
       = Some 40"
    using prompt_tokens_guard [of envEmpty fullyMarked "''claude''" upstreamUsage] zero up by simp
  then show ?thesis using zero created up other by blast
qed

subsection \<open>The prefix hash\<close>

lemma filter_key_singleton:
  "distinct (map fst xs) \<Longrightarrow> k \<in> set xs \<Longrightarrow> filter (\<lambda>x. fst k = fst x) xs = [k]"
proof (induction xs)
  case Nil
  then show ?case by simp
next
  case (Cons x xs)
  show ?case
  proof (cases "k = x")
    case True
    have "filter (\<lambda>y. fst x = fst y) xs = []"
      using Cons.prems(1) by (auto simp: filter_empty_conv image_iff)
    then show ?thesis using True by simp
  next
    case False
    then have k: "k \<in> set xs" using Cons.prems(2) by simp
    then have "fst k \<noteq> fst x" using Cons.prems(1) by (auto simp: image_iff)
    then show ?thesis using Cons.IH k Cons.prems(1) by simp
  qed
qed

lemma distinct_keys_sort:
  "distinct (map fst xs) \<Longrightarrow> distinct (map fst (sort_key fst xs))"
  by (metis mset_map mset_sort mset_eq_imp_distinct_iff)

lemma sort_key_enumeration:
  assumes "mset ys = mset xs" and "distinct (map fst xs)"
  shows "sort_key fst ys = sort_key fst xs"
proof (rule properties_for_sort_key)
  show "mset (sort_key fst xs) = mset ys" using assms(1) by simp
  show "sorted (map fst (sort_key fst xs))" by simp
  have dy: "distinct (map fst ys)"
    using assms by (metis mset_map mset_eq_imp_distinct_iff)
  have ds: "distinct (map fst (sort_key fst xs))" using assms(2) by (rule distinct_keys_sort)
  fix k assume k: "k \<in> set (sort_key fst xs)"
  then have "k \<in> set ys" using assms(1) by (metis set_sort mset_eq_setD)
  then have "filter (\<lambda>x. fst k = fst x) ys = [k]" using dy by (rule filter_key_singleton[rotated])
  moreover have "filter (\<lambda>x. fst k = fst x) (sort_key fst xs) = [k]"
    using ds k by (rule filter_key_singleton)
  ultimately show "filter (\<lambda>x. fst k = fst x) (sort_key fst xs) = filter (\<lambda>x. fst k = fst x) ys"
    by simp
qed

lemma prefixData_distinct: "distinct (map fst (prefixData prefix model))"
  by (simp add: prefixData_def)

text \<open>
  C9.  \<open>CalculatePrefixHash\<close> is a function of the prefix and the model.  The digest does
  not depend on the order in which the map of the canonical form hands out its entries:
  whatever enumeration of the entries is encoded, the digest is the one
  \<open>CalculatePrefixHash\<close> returns, and the keys are written in strictly increasing order.
\<close>

theorem prefix_hash_order_independent:
  assumes "mset entries = mset (prefixData prefix model)"
  shows "hashEntries env entries = CalculatePrefixHash env prefix model
       \<and> sorted_wrt (<) (map fst (sort_key fst entries))"
proof -
  have eq: "sort_key fst entries = sort_key fst (prefixData prefix model)"
    using assms prefixData_distinct by (rule sort_key_enumeration)
  have "distinct (map fst (sort_key fst (prefixData prefix model)))"
    using prefixData_distinct by (rule distinct_keys_sort)
  then have "sorted_wrt (<) (map fst (sort_key fst (prefixData prefix model)))"
    by (simp add: strict_sorted_iff)
  then show ?thesis
    using eq by (simp add: CalculatePrefixHash_def hashEntries_def marshalMap_def)
qed

theorem prefix_hash_order_independent_witness:
  "mset [(''tools'', VRawList [''toolabc'']), (''messages'', VRawList [''hello'', ''question'']),
         (''system'', VRawList [''system-prompt'']), (''model'', VString ''claude'')]
     = mset (prefixData examplePrefix ''claude'')
   \<and> BuildPrefixUpToBreakpoint envEmpty firstRequest
        (ExtractCacheBreakpoints envEmpty firstRequest ''claude'' ! 1) = examplePrefix
   \<and> CalculatePrefixHash envEmpty examplePrefix ''claude''
       = ''{messages:[hello,question],model:claude,system:[system-prompt],tools:[toolabc]}''
   \<and> hashEntries envEmpty
        [(''tools'', VRawList [''toolabc'']), (''messages'', VRawList [''hello'', ''question'']),
         (''system'', VRawList [''system-prompt'']), (''model'', VString ''claude'')]
       = ''{messages:[hello,question],model:claude,system:[system-prompt],tools:[toolabc]}''"
proof -
  have perm: "mset [(''tools'', VRawList [''toolabc'']), (''messages'', VRawList [''hello'', ''question'']),
         (''system'', VRawList [''system-prompt'']), (''model'', VString ''claude'')]
     = mset (prefixData examplePrefix ''claude'')"
    by (simp add: prefixData_def examplePrefix_def)
  have built: "BuildPrefixUpToBreakpoint envEmpty firstRequest
        (ExtractCacheBreakpoints envEmpty firstRequest ''claude'' ! 1) = examplePrefix"
    by code_simp
  have digest: "CalculatePrefixHash envEmpty examplePrefix ''claude''
       = ''{messages:[hello,question],model:claude,system:[system-prompt],tools:[toolabc]}''"
    by code_simp
  show ?thesis
    using prefix_hash_order_independent [OF perm, of envEmpty] perm built digest by simp
qed

end
